theory Spec2Isabelle
  imports Complex_Main
begin

text \<open>
  A shallow embedding of the core of the proxy: the network-error predicate and the
  retrying fetch of \<open>src/utils/helpers.js\<close>, the traffic shaper, the fingerprint generator
  of \<open>src/utils/fingerprint.js\<close> with the account pool's fingerprint history and token
  refresh, the response converter and the interaction events of
  \<open>src/modules/telemetry.js\<close>. The first chapter
  holds the definitions, each below the code it is translated from; the second chapter
  states and proves the properties. Random draws, clock readings and the behaviour of the
  network are inputs of the functions that use them.
\<close>

chapter \<open>The model\<close>

section \<open>JavaScript values and strings\<close>

text \<open>
  A JavaScript string is modelled as a \<^typ>\<open>string\<close>: a list of code units below 256
  (the Latin-1 range). On that range \<open>String.prototype.toLowerCase\<close> maps \<open>A\<close>--\<open>Z\<close> and
  the accented capitals \<open>0xC0\<close>--\<open>0xDE\<close> (the multiplication sign \<open>0xD7\<close> apart) to the
  code unit 32 above and leaves every other code unit alone.
\<close>

definition toLowerCase_unit :: "char \<Rightarrow> char" where
  "toLowerCase_unit c =
     (let n = (of_char c :: nat)
      in if (65 \<le> n \<and> n \<le> 90) \<or> (192 \<le> n \<and> n \<le> 222 \<and> n \<noteq> 215)
         then char_of (n + 32) else c)"

definition toLowerCase :: "string \<Rightarrow> string" where
  "toLowerCase s = map toLowerCase_unit s"

text \<open>\<open>s.startsWith(p)\<close> and \<open>s.includes(p)\<close> (\<open>str_includes\<close>), by recursion over the code units of \<open>s\<close>.\<close>

fun startsWith :: "string \<Rightarrow> string \<Rightarrow> bool" where
  "startsWith s [] = True"
| "startsWith [] (p # ps) = False"
| "startsWith (c # cs) (p # ps) = (c = p \<and> startsWith cs ps)"

fun str_includes :: "string \<Rightarrow> string \<Rightarrow> bool" where
  "str_includes [] p = (p = [])"
| "str_includes (c # cs) p = (startsWith (c # cs) p \<or> str_includes cs p)"

text \<open>
  The values an \<open>error\<close> argument and its \<open>message\<close> property can be: the primitives and
  plain objects (a property list; the first binding of a key is the one read). There are
  no function values, so no object of the model has a callable property of its own.
\<close>

datatype jsval =
    JUndefined
  | JNull
  | JBool bool
  | JNum int
  | JStr string
  | JObj "(string \<times> jsval) list"

text \<open>What a \<open>throw\<close> carries: a \<open>TypeError\<close> raised by the runtime or a thrown value.\<close>

datatype thrown = TypeError | Value jsval

text \<open>\<open>new Error(msg)\<close>, as far as the code reads it: an object with a \<open>message\<close>.\<close>

definition mkError :: "string \<Rightarrow> jsval" where
  "mkError msg = JObj [(''message'', JStr msg)]"

text \<open>
  \<open>error.message\<close>: reading a property of \<open>undefined\<close> or \<open>null\<close> throws; an object yields
  the property or \<open>undefined\<close>; a primitive has no \<open>message\<close> property.
\<close>

fun message_of :: "jsval \<Rightarrow> thrown + jsval" where
  "message_of JUndefined = Inl TypeError"
| "message_of JNull = Inl TypeError"
| "message_of (JObj props) =
     Inr (case map_of props ''message'' of None \<Rightarrow> JUndefined | Some v \<Rightarrow> v)"
| "message_of _ = Inr JUndefined"

section \<open>helpers.js: isNetworkError\<close>

text \<open>
  \<^verbatim>\<open>
  export function isNetworkError(error) {
      const msg = error.message.toLowerCase();
      return (
          msg.includes('fetch failed') || msg.includes('network error') ||
          msg.includes('econnreset') || msg.includes('etimedout') ||
          msg.includes('socket hang up') || msg.includes('timeout')
      );
  }
  \<close>
  \<open>.toLowerCase()\<close> exists on strings only: on \<open>undefined\<close> and \<open>null\<close> the property read
  throws, on any other non-string the property is \<open>undefined\<close> and the call throws.
\<close>

definition isNetworkError :: "jsval \<Rightarrow> thrown + bool" where
  "isNetworkError error =
     (case message_of error of
        Inl e \<Rightarrow> Inl e
      | Inr (JStr m) \<Rightarrow>
          (let msg = toLowerCase m
           in Inr (str_includes msg ''fetch failed'' \<or>
                   str_includes msg ''network error'' \<or>
                   str_includes msg ''econnreset'' \<or>
                   str_includes msg ''etimedout'' \<or>
                   str_includes msg ''socket hang up'' \<or>
                   str_includes msg ''timeout''))
      | Inr _ \<Rightarrow> Inl TypeError)"

text \<open>The six substrings of the specification, as a list.\<close>

definition network_error_substrings :: "string list" where
  "network_error_substrings =
     [''fetch failed'', ''network error'', ''econnreset'', ''etimedout'',
      ''socket hang up'', ''timeout'']"

section \<open>helpers.js: throttledFetch\<close>

text \<open>
  \<^verbatim>\<open>
  const MAX_RETRIES = 2;
  const RETRY_DELAY_BASE = 1000;
  \<close>
\<close>

definition MAX_RETRIES :: nat where
  "MAX_RETRIES = 2"

definition RETRY_DELAY_BASE :: rat where
  "RETRY_DELAY_BASE = 1000"

text \<open>The decimal numeral a template string prints for a non-negative integer.\<close>

fun string_of_nat :: "nat \<Rightarrow> string" where
  "string_of_nat n =
     (if n < 10 then [char_of (48 + n)]
      else string_of_nat (n div 10) @ [char_of (48 + n mod 10)])"

declare string_of_nat.simps [simp del]

text \<open>
  \<^verbatim>\<open>
  export function generateJitter(maxJitterMs) {
      const u = 1 - Math.random();
      const v = Math.random();
      const z = Math.sqrt(-2.0 * Math.log(u)) * Math.cos(2.0 * Math.PI * v);
      const stdev = maxJitterMs / 4;
      return z * stdev;
  }
  \<close>
  The Box--Muller sample \<open>z\<close> is floating-point arithmetic on two random draws; the model
  takes it as an input. Durations are rational numbers of milliseconds.
\<close>

definition generateJitter :: "rat \<Rightarrow> rat \<Rightarrow> rat" where
  "generateJitter z maxJitterMs = (let stdev = maxJitterMs / 4 in z * stdev)"

text \<open>
  The two fields of \<open>config\<close> (\<open>config.js\<close> is not among the sources) that
  \<open>throttledFetch\<close> reads; \<open>requestDelayMs\<close> may be absent.
\<close>

record config =
  requestThrottlingEnabled :: bool
  requestDelayMs :: "rat option"

text \<open>
  What the network does with one request: the stream emits \<open>response\<close> with a status code,
  or it emits \<open>error\<close> with some value. What \<open>throttledFetch\<close> does to the world: it sleeps
  and it issues requests (numbered by \<open>attempt\<close>). How the call ends: it returns the
  \<open>Response\<close> (represented by its status), it throws, it falls out of the loop, or its
  \<open>response\<close> listener throws.
\<close>

datatype attempt_outcome = Responds nat | Rejects jsval

datatype effect = Sleep rat | Request nat

text \<open>
  The \<open>response\<close> listener builds the value to return:
  \<^verbatim>\<open>
  stream.on('response', (res) => {
      const fetchResponse = new Response(Readable.toWeb(stream), {
          status: res.statusCode, statusText: res.statusMessage,
          headers: new Headers(res.headers) });
      resolve(fetchResponse);
  });
  \<close>
  By the Fetch standard the \<open>Response\<close> constructor throws a \<open>RangeError\<close> unless the status
  is between 200 and 599, and a \<open>TypeError\<close> when the body is not null, as here, and the
  status is a null-body status (204, 205 and 304 in that range). Then the listener throws
  inside the stream's \<open>emit\<close> and \<open>resolve\<close> is not called: this code returns no response
  for such a reply, and what becomes of the call is the stream library's business. Of a
  reply the model keeps the status only: its headers are those the stream library parsed
  and are taken to be headers that \<open>new Headers\<close> accepts.
\<close>

datatype constructor_error = StatusRangeError | NullBodyStatusError

definition new_Response :: "nat \<Rightarrow> constructor_error + nat" where
  "new_Response status =
     (if \<not> (200 \<le> status \<and> status \<le> 599) then Inl StatusRangeError
      else if status \<in> set [204, 205, 304] then Inl NullBodyStatusError
      else Inr status)"

datatype fetch_result =
    Returned nat
  | Threw thrown
  | ReturnedUndefined
  | ListenerThrew constructor_error

text \<open>
  \<^verbatim>\<open>
  if (config.requestThrottlingEnabled) {
      const baseDelay = config.requestDelayMs || 200;
      if (baseDelay > 0) {
          const jitter = generateJitter(baseDelay * 0.4);
          const delay = Math.max(0, baseDelay + jitter);
          await sleep(delay);
      }
  }
  \<close>
\<close>

definition pre_call_delay :: "config \<Rightarrow> rat \<Rightarrow> effect list" where
  "pre_call_delay cfg z =
     (if requestThrottlingEnabled cfg then
        (let baseDelay = (case requestDelayMs cfg of
                            None \<Rightarrow> 200
                          | Some d \<Rightarrow> if d = 0 then 200 else d)
         in if baseDelay > 0
            then (let jitter = generateJitter z (baseDelay * (4 / 10));
                      delay = max 0 (baseDelay + jitter)
                  in [Sleep delay])
            else [])
      else [])"

text \<open>\<open>error.message.startsWith(p)\<close>: throws unless the message is a string.\<close>

definition message_startsWith :: "jsval \<Rightarrow> string \<Rightarrow> thrown + bool" where
  "message_startsWith error p =
     (case message_of error of
        Inl e \<Rightarrow> Inl e
      | Inr (JStr m) \<Rightarrow> Inr (startsWith m p)
      | Inr _ \<Rightarrow> Inl TypeError)"

text \<open>
  The \<open>try\<close> block of one iteration, after the stream has answered:
  \<^verbatim>\<open>
  if (attempt < MAX_RETRIES && [500, 502, 503, 504].includes(response.status)) {
      throw new Error(`HTTP ${response.status}`);
  }
  return response;
  \<close>
  A stream error is thrown into the \<open>catch\<close> block as it is.
\<close>

datatype tried = Return nat | Catch jsval | Stuck constructor_error

definition try_request :: "nat \<Rightarrow> attempt_outcome \<Rightarrow> tried" where
  "try_request attempt out =
     (case out of
        Rejects err \<Rightarrow> Catch err
      | Responds code \<Rightarrow>
          (case new_Response code of
             Inl e \<Rightarrow> Stuck e
           | Inr status \<Rightarrow>
               if attempt < MAX_RETRIES \<and> status \<in> set [500, 502, 503, 504]
               then Catch (mkError (''HTTP '' @ string_of_nat status))
               else Return status))"

text \<open>
  The \<open>catch\<close> block:
  \<^verbatim>\<open>
  lastError = error;
  const isRetryableStatus = error.message.startsWith('HTTP 5');
  const isNetwork = isNetworkError(error);
  if (attempt < MAX_RETRIES && (isRetryableStatus || isNetwork)) {
      const backoff = RETRY_DELAY_BASE * Math.pow(2, attempt);
      const jitter = generateJitter(backoff * 0.5);
      const delay = Math.max(500, backoff + jitter);
      await sleep(delay);
      continue;
  }
  throw lastError;
  \<close>
  A \<open>TypeError\<close> raised by one of the two message reads leaves the function.
\<close>

datatype handled = Continue rat | Rethrow thrown

definition catch_error :: "nat \<Rightarrow> rat \<Rightarrow> jsval \<Rightarrow> handled" where
  "catch_error attempt z error =
     (case message_startsWith error ''HTTP 5'' of
        Inl e \<Rightarrow> Rethrow e
      | Inr isRetryableStatus \<Rightarrow>
          (case isNetworkError error of
             Inl e \<Rightarrow> Rethrow e
           | Inr isNetwork \<Rightarrow>
               if attempt < MAX_RETRIES \<and> (isRetryableStatus \<or> isNetwork)
               then (let backoff = RETRY_DELAY_BASE * 2 ^ attempt;
                         jitter = generateJitter z (backoff * (5 / 10));
                         delay = max 500 (backoff + jitter)
                     in Continue delay)
               else Rethrow (Value error)))"

text \<open>
  \<open>for (let attempt = 0; attempt <= MAX_RETRIES; attempt++) { try {...} catch {...} }\<close>,
  from \<open>attempt\<close> on. \<open>net attempt\<close> is what the network does with that request and
  \<open>z attempt\<close> the Box--Muller sample of that iteration's backoff.
\<close>

function attempt_loop ::
  "(nat \<Rightarrow> attempt_outcome) \<Rightarrow> (nat \<Rightarrow> rat) \<Rightarrow> nat \<Rightarrow> fetch_result \<times> effect list" where
  "attempt_loop net z attempt =
     (if attempt \<le> MAX_RETRIES then
        (case try_request attempt (net attempt) of
           Return status \<Rightarrow> (Returned status, [Request attempt])
         | Stuck e \<Rightarrow> (ListenerThrew e, [Request attempt])
         | Catch error \<Rightarrow>
             (case catch_error attempt (z attempt) error of
                Continue delay \<Rightarrow>
                  (case attempt_loop net z (attempt + 1) of
                     (r, es) \<Rightarrow> (r, Request attempt # Sleep delay # es))
              | Rethrow e \<Rightarrow> (Threw e, [Request attempt])))
      else (ReturnedUndefined, []))"
  by pat_completeness auto
termination
  by (relation "measure (\<lambda>(net, z, attempt). Suc MAX_RETRIES - attempt)") auto

declare attempt_loop.simps [simp del]

text \<open>The whole call: the optional delay (with its own sample \<open>z0\<close>), then the loop.\<close>

definition throttledFetch ::
  "config \<Rightarrow> rat \<Rightarrow> (nat \<Rightarrow> attempt_outcome) \<Rightarrow> (nat \<Rightarrow> rat) \<Rightarrow> fetch_result \<times> effect list" where
  "throttledFetch cfg z0 net z =
     (case attempt_loop net z 0 of (r, es) \<Rightarrow> (r, pre_call_delay cfg z0 @ es))"

text \<open>The attempts a call made, in order.\<close>

fun requests_of :: "effect list \<Rightarrow> nat list" where
  "requests_of [] = []"
| "requests_of (Request k # es) = k # requests_of es"
| "requests_of (Sleep d # es) = requests_of es"

text \<open>
  The retry condition in the words of the specification, with the one addition the code
  makes: a thrown error whose message starts with \<open>HTTP 5\<close> counts as a retryable status.
\<close>

definition retry_condition :: "attempt_outcome \<Rightarrow> bool" where
  "retry_condition out =
     (case out of
        Responds status \<Rightarrow> status \<in> {500, 502, 503, 504}
      | Rejects e \<Rightarrow> message_startsWith e ''HTTP 5'' = Inr True \<or> isNetworkError e = Inr True)"

text \<open>How a request that is not retried ends the call.\<close>

definition settle :: "attempt_outcome \<Rightarrow> fetch_result" where
  "settle out =
     (case out of
        Responds code \<Rightarrow>
          (case new_Response code of Inl e \<Rightarrow> ListenerThrew e | Inr status \<Rightarrow> Returned status)
      | Rejects e \<Rightarrow> Threw (Value e))"

text \<open>The number of requests the retry condition predicts.\<close>

definition attempts_made :: "(nat \<Rightarrow> attempt_outcome) \<Rightarrow> nat" where
  "attempts_made net =
     (if retry_condition (net 0) then (if retry_condition (net 1) then 3 else 2) else 1)"

section \<open>fingerprint.js\<close>

text \<open>
  \<open>String.prototype.toUpperCase\<close> on the same range: \<open>a\<close>--\<open>z\<close> and the accented small
  letters \<open>0xE0\<close>--\<open>0xFE\<close> (the division sign \<open>0xF7\<close> apart) move 32 down. The three code
  units whose upper case lies outside the range (\<open>0xB5\<close>, \<open>0xDF\<close>, \<open>0xFF\<close>) are left alone;
  the UUIDs this is applied to contain none of them.
\<close>

definition toUpperCase_unit :: "char \<Rightarrow> char" where
  "toUpperCase_unit c =
     (let n = (of_char c :: nat)
      in if (97 \<le> n \<and> n \<le> 122) \<or> (224 \<le> n \<and> n \<le> 254 \<and> n \<noteq> 247)
         then char_of (n - 32) else c)"

definition toUpperCase :: "string \<Rightarrow> string" where
  "toUpperCase s = map toUpperCase_unit s"

text \<open>\<open>osVersion.replace(/\./g, '_')\<close>.\<close>

definition replace_dots :: "string \<Rightarrow> string" where
  "replace_dots s = map (\<lambda>c. if c = CHR ''.'' then CHR ''_'' else c) s"

text \<open>
  \<^verbatim>\<open>
  const OS_VERSIONS = { darwin: [...], win32: [...], linux: [...] };
  const ARCHITECTURES = ['x64', 'arm64'];
  const VSCODE_VERSIONS = [...];  const ELECTRON_VERSIONS = [...];
  const CHROME_VERSIONS = [...];  const SDK_CLIENTS = [...];
  export const MAX_FINGERPRINT_HISTORY = 5;
  \<close>
\<close>

definition OS_VERSIONS :: "(string \<times> string list) list" where
  "OS_VERSIONS =
     [(''darwin'', [''10.15.7'', ''11.6.8'', ''12.6.3'', ''13.5.2'', ''14.2.1'', ''14.5'']),
      (''win32'', [''10.0.19041'', ''10.0.19042'', ''10.0.19043'', ''10.0.22000'',
                  ''10.0.22621'', ''10.0.22631'']),
      (''linux'', [''5.15.0'', ''5.19.0'', ''6.1.0'', ''6.2.0'', ''6.5.0'', ''6.6.0''])]"

definition ARCHITECTURES :: "string list" where
  "ARCHITECTURES = [''x64'', ''arm64'']"

definition VSCODE_VERSIONS :: "string list" where
  "VSCODE_VERSIONS = [''1.85.1'', ''1.86.0'', ''1.87.2'', ''1.88.1'', ''1.89.0'']"

definition ELECTRON_VERSIONS :: "string list" where
  "ELECTRON_VERSIONS = [''25.9.8'', ''27.2.3'', ''28.2.1'', ''29.3.0'']"

definition CHROME_VERSIONS :: "string list" where
  "CHROME_VERSIONS =
     [''114.0.5735.289'', ''118.0.5993.159'', ''120.0.6099.291'', ''122.0.6261.111'']"

definition SDK_CLIENTS :: "string list" where
  "SDK_CLIENTS =
     [''google-cloud-sdk vscode_cloudshelleditor/0.1'',
      ''google-cloud-sdk vscode/1.86.0'',
      ''google-cloud-sdk vscode/1.87.0'',
      ''google-cloud-sdk intellij/2024.1'',
      ''google-cloud-sdk android-studio/2024.1'']"

definition MAX_FINGERPRINT_HISTORY :: nat where
  "MAX_FINGERPRINT_HISTORY = 5"

text \<open>
  Modelled from the spec: \<open>constants.js\<close> is not among the sources. The specification
  gives the platforms of \<open>clientMetadata\<close> as unspecified, windows, linux and macos; the
  values of \<open>IDE_TYPE.ANTIGRAVITY\<close> and \<open>PLUGIN_TYPE.GEMINI\<close> are parameters.
\<close>

datatype platform = UNSPECIFIED | WINDOWS | LINUX | MACOS

record constants =
  IDE_TYPE_ANTIGRAVITY :: int
  PLUGIN_TYPE_GEMINI :: int

record clientMetadata =
  ideType :: int
  platform :: platform
  pluginType :: int
  osVersion :: string
  arch :: string
  sqmId :: string

record fingerprint =
  deviceId :: string
  sessionToken :: string
  userAgent :: string
  apiClient :: string
  clientMetadata :: clientMetadata
  quotaUser :: string
  createdAt :: int

text \<open>
  What one call of \<open>generateFingerprint\<close> draws from outside: the results of its seven
  \<open>Math.random()\<close> calls in order, of \<open>crypto.randomUUID()\<close> (twice) and
  \<open>crypto.randomBytes(n).toString('hex')\<close> (twice), and of \<open>Date.now()\<close>.
\<close>

record entropy =
  draw :: "nat \<Rightarrow> rat"
  deviceUuid :: string
  sessionHex :: string
  sqmUuid :: string
  quotaHex :: string
  clock :: int

text \<open>
  \<^verbatim>\<open>
  function randomFrom(arr) {
      return arr[Math.floor(Math.random() * arr.length)];
  }
  \<close>
  \<open>Math.random()\<close> lies in \<open>[0, 1)\<close>, so the index is in range for a non-empty array.
\<close>

definition randomFrom :: "'a list \<Rightarrow> rat \<Rightarrow> 'a" where
  "randomFrom arr u = arr ! nat \<lfloor>u * of_nat (length arr)\<rfloor>"

definition generateFingerprint :: "constants \<Rightarrow> entropy \<Rightarrow> fingerprint" where
  "generateFingerprint k r =
     (let platform = randomFrom [''darwin'', ''win32'', ''linux''] (draw r 0);
          arch = randomFrom ARCHITECTURES (draw r 1);
          osVersion = randomFrom (case map_of OS_VERSIONS platform of
                                    Some vs \<Rightarrow> vs
                                  | None \<Rightarrow> (case map_of OS_VERSIONS ''linux'' of
                                              Some vs \<Rightarrow> vs
                                            | None \<Rightarrow> [])) (draw r 2);
          matchingPlatform =
            (if platform = ''darwin'' then MACOS
             else if platform = ''win32'' then WINDOWS
             else if platform = ''linux'' then LINUX
             else UNSPECIFIED);
          vscodeVersion = randomFrom VSCODE_VERSIONS (draw r 3);
          electronVersion = randomFrom ELECTRON_VERSIONS (draw r 4);
          chromeVersion = randomFrom CHROME_VERSIONS (draw r 5);
          tail = '') AppleWebKit/537.36 (KHTML, like Gecko) Code/'' @ vscodeVersion @
                 '' Chrome/'' @ chromeVersion @ '' Electron/'' @ electronVersion @
                 '' Safari/537.36'';
          userAgent =
            (if platform = ''darwin''
             then ''Mozilla/5.0 (Macintosh; Intel Mac OS X '' @ replace_dots osVersion @ tail
             else if platform = ''win32''
             then ''Mozilla/5.0 (Windows NT '' @ osVersion @ ''; Win64; x64'' @ tail
             else ''Mozilla/5.0 (X11; Linux x86_64'' @ tail)
      in \<lparr>deviceId = deviceUuid r,
          sessionToken = sessionHex r,
          userAgent = userAgent,
          apiClient = randomFrom SDK_CLIENTS (draw r 6),
          clientMetadata =
            \<lparr>ideType = IDE_TYPE_ANTIGRAVITY k,
             platform = matchingPlatform,
             pluginType = PLUGIN_TYPE_GEMINI k,
             osVersion = osVersion,
             arch = arch,
             sqmId = ''{'' @ toUpperCase (sqmUuid r) @ ''}''\<rparr>,
          quotaUser = ''device-'' @ quotaHex r,
          createdAt = clock r\<rparr>)"

text \<open>
  Objects live in a store: the heap is the list of the fingerprint objects allocated so
  far, a reference is an index into it, and a new object is allocated at the end. So
  "the same object" is "the same reference".
\<close>

type_synonym heap = "fingerprint list"

datatype fpref = Null | Undefined | Ref nat

text \<open>
  \<^verbatim>\<open>
  export function updateFingerprintVersion(fingerprint) {
      if (fingerprint && fingerprint.userAgent &&
          fingerprint.userAgent.startsWith('antigravity/')) {
          const newFingerprint = generateFingerprint();
          return { ...fingerprint,
                   userAgent: newFingerprint.userAgent,
                   clientMetadata: newFingerprint.clientMetadata };
      }
      return fingerprint;
  }
  \<close>
  The call allocates \<open>newFingerprint\<close> and then the returned copy.
\<close>

definition updateFingerprintVersion ::
  "constants \<Rightarrow> entropy \<Rightarrow> heap \<Rightarrow> fpref \<Rightarrow> fpref \<times> heap" where
  "updateFingerprintVersion k r h fingerprint =
     (case fingerprint of
        Ref a \<Rightarrow>
          if a < length h \<and> userAgent (h ! a) \<noteq> [] \<and>
             startsWith (userAgent (h ! a)) ''antigravity/''
          then (let newFingerprint = generateFingerprint k r;
                    copy = (h ! a)\<lparr>userAgent := userAgent newFingerprint,
                                   clientMetadata := clientMetadata newFingerprint\<rparr>
                in (Ref (Suc (length h)), h @ [newFingerprint, copy]))
          else (fingerprint, h)
      | _ \<Rightarrow> (fingerprint, h))"

section \<open>The account pool's fingerprint operations\<close>

text \<open>
  Modelled from the spec: \<open>regenerate\<close> and \<open>restore\<close> of the account pool
  (\<open>src/account-manager/index.js\<close>, of which only the tests are among the sources). The
  specification's words are: an account has a current \<open>fingerprint\<close> and a
  \<open>fingerprintHistory\<close>, an ordered list of entries with a fingerprint, a reason
  (regenerated, restored or invalidated) and a timestamp. \<open>regenerate(account)\<close> pushes the
  current fingerprint to the head of the history with reason \<open>regenerated\<close>, truncates the
  history to the cap and sets a freshly generated fingerprint as current.
  \<open>restore(account, historyIndex)\<close> validates \<open>0 \<le> historyIndex < history.length\<close>
  (failing with \<open>InvalidArgument\<close> otherwise), pushes the current fingerprint to the head
  of the history with reason \<open>restored\<close>, then removes the entry that was originally at
  \<open>historyIndex\<close>, which is now at \<open>historyIndex + 1\<close>, and installs it as current.
\<close>

datatype reason = regenerated | restored | invalidated

record history_entry =
  entry_fingerprint :: fingerprint
  reason :: reason
  timestamp :: int

record account =
  email :: string
  fingerprint :: fingerprint
  fingerprintHistory :: "history_entry list"

datatype pool_error = InvalidArgument

definition remove_at :: "nat \<Rightarrow> 'a list \<Rightarrow> 'a list" where
  "remove_at n xs = take n xs @ drop (Suc n) xs"

definition regenerateFingerprint :: "constants \<Rightarrow> entropy \<Rightarrow> int \<Rightarrow> account \<Rightarrow> account" where
  "regenerateFingerprint k r now acc =
     (let pushed = \<lparr>entry_fingerprint = fingerprint acc, reason = regenerated,
                    timestamp = now\<rparr> # fingerprintHistory acc
      in acc\<lparr>fingerprintHistory := take MAX_FINGERPRINT_HISTORY pushed,
             fingerprint := generateFingerprint k r\<rparr>)"

definition restoreFingerprint :: "int \<Rightarrow> int \<Rightarrow> account \<Rightarrow> pool_error + account" where
  "restoreFingerprint historyIndex now acc =
     (if 0 \<le> historyIndex \<and> historyIndex < int (length (fingerprintHistory acc)) then
        (let target = fingerprintHistory acc ! nat historyIndex;
             pushed = \<lparr>entry_fingerprint = fingerprint acc, reason = restored,
                       timestamp = now\<rparr> # fingerprintHistory acc
         in Inr (acc\<lparr>fingerprintHistory := remove_at (nat historyIndex + 1) pushed,
                     fingerprint := entry_fingerprint target\<rparr>))
      else Inl InvalidArgument)"

text \<open>
  A sequence of operations on one account. Each \<open>Regenerate\<close> carries what its
  \<open>generateFingerprint\<close> call draws and both carry the time of the call. A \<open>restore\<close>
  that fails has changed nothing, and the sequence goes on.
\<close>

datatype fp_op = Regenerate entropy int | Restore int int

fun apply_op :: "constants \<Rightarrow> account \<Rightarrow> fp_op \<Rightarrow> account" where
  "apply_op k acc (Regenerate r now) = regenerateFingerprint k r now acc"
| "apply_op k acc (Restore i now) =
     (case restoreFingerprint i now acc of Inl e \<Rightarrow> acc | Inr acc' \<Rightarrow> acc')"

fun apply_ops :: "constants \<Rightarrow> account \<Rightarrow> fp_op list \<Rightarrow> account" where
  "apply_ops k acc [] = acc"
| "apply_ops k acc (x # xs) = apply_ops k (apply_op k acc x) xs"

text \<open>The fingerprints an account holds: the current one, then those of its history.\<close>

definition held :: "account \<Rightarrow> fingerprint list" where
  "held acc = fingerprint acc # map entry_fingerprint (fingerprintHistory acc)"

text \<open>
  The specification takes two generated fingerprints to be distinct (with probability 1).
  In a run, that is: each generated fingerprint differs from those the account holds when
  it is generated.
\<close>

fun generated_fresh :: "constants \<Rightarrow> account \<Rightarrow> fp_op list \<Rightarrow> bool" where
  "generated_fresh k acc [] = True"
| "generated_fresh k acc (Regenerate r now # xs) =
     (generateFingerprint k r \<notin> set (held acc) \<and>
      generated_fresh k (apply_op k acc (Regenerate r now)) xs)"
| "generated_fresh k acc (Restore i now # xs) =
     generated_fresh k (apply_op k acc (Restore i now)) xs"

text \<open>
  The state of an account that the pool has created and operated on: the history within
  the cap, no fingerprint held twice.
\<close>

definition well_formed :: "account \<Rightarrow> bool" where
  "well_formed acc \<longleftrightarrow>
     length (fingerprintHistory acc) \<le> MAX_FINGERPRINT_HISTORY \<and> distinct (held acc)"

definition new_account :: "string \<Rightarrow> fingerprint \<Rightarrow> account" where
  "new_account e fp = \<lparr>email = e, fingerprint = fp, fingerprintHistory = []\<rparr>"

section \<open>The response converter\<close>

text \<open>
  Modelled from the spec: \<open>convertGoogleToAnthropic\<close> (\<open>src/format/response-converter.js\<close>,
  of which only the tests are among the sources). The specification's words are: accept
  the raw Google response or a \<open>{response: ...}\<close> wrapper; the result has the fixed envelope
  \<open>type = "message"\<close>, \<open>role = "assistant"\<close>, \<open>model = modelName\<close>, \<open>content\<close>,
  \<open>stop_reason\<close>, \<open>usage\<close>; walk \<open>candidates[0].content.parts\<close> in order, each part becoming
  at most one content block (a part with \<open>thought == true\<close> a thinking block, a part with
  plain \<open>text\<close> a text block, a part with \<open>functionCall\<close> a tool-use block whose id is the
  call's or \<open>toolu_\<close> and 24 random hex digits, a part with \<open>inlineData\<close> an image block);
  if \<open>candidates\<close> is empty or missing, emit a single empty-text block; the result always
  has \<open>content.length \<ge> 1\<close>. The specification names no other block for a result that
  would have none, so the model emits the single empty-text block whenever the walk yields
  no block: with empty or missing \<open>candidates\<close> there is nothing to walk, and a first
  candidate without content, without parts or with parts of no known kind is treated alike.
  The stop reason and the usage follow the specification's tables.
\<close>

record functionCall =
  call_id :: "string option"
  call_name :: string
  call_args :: "jsval option"

record inlineData =
  mimeType :: string
  inline_data :: string

record part =
  part_text :: "string option"
  thought :: bool
  thoughtSignature :: "string option"
  functionCall :: "functionCall option"
  inlineData :: "inlineData option"

record candidate =
  content_parts :: "part list option"
  finishReason :: "string option"

record usageMetadata =
  promptTokenCount :: "int option"
  cachedContentTokenCount :: "int option"
  candidatesTokenCount :: "int option"

record googleResponse =
  candidates :: "candidate list option"
  usageMetadata :: "usageMetadata option"

datatype google_input = Raw googleResponse | Wrapped googleResponse

datatype block =
    Thinking "string option" "string option"
  | Text string
  | ToolUse string string jsval "string option"
  | Image string string

record usage =
  input_tokens :: int
  cache_read_input_tokens :: int
  output_tokens :: int

record anthropicResponse =
  message_type :: string
  role :: string
  model :: string
  content :: "block list"
  stop_reason :: string
  usage :: usage

definition unwrap :: "google_input \<Rightarrow> googleResponse" where
  "unwrap g = (case g of Raw r \<Rightarrow> r | Wrapped r \<Rightarrow> r)"

text \<open>One part, with the 24 hex digits drawn for it should it be a call without an id.\<close>

definition convert_part :: "string \<Rightarrow> part \<Rightarrow> block option" where
  "convert_part hex p =
     (if thought p then Some (Thinking (part_text p) (thoughtSignature p))
      else case part_text p of
        Some t \<Rightarrow> Some (Text t)
      | None \<Rightarrow>
          (case functionCall p of
             Some c \<Rightarrow>
               Some (ToolUse (case call_id c of Some i \<Rightarrow> i | None \<Rightarrow> ''toolu_'' @ hex)
                             (call_name c)
                             (case call_args c of Some a \<Rightarrow> a | None \<Rightarrow> JObj [])
                             (thoughtSignature p))
           | None \<Rightarrow>
               (case inlineData p of
                  Some d \<Rightarrow> Some (Image (mimeType d) (inline_data d))
                | None \<Rightarrow> None)))"

fun convert_parts :: "(nat \<Rightarrow> string) \<Rightarrow> nat \<Rightarrow> part list \<Rightarrow> block list" where
  "convert_parts hex n [] = []"
| "convert_parts hex n (p # ps) =
     (case convert_part (hex n) p of
        None \<Rightarrow> convert_parts hex (Suc n) ps
      | Some b \<Rightarrow> b # convert_parts hex (Suc n) ps)"

definition first_candidate :: "googleResponse \<Rightarrow> candidate option" where
  "first_candidate r =
     (case candidates r of None \<Rightarrow> None | Some [] \<Rightarrow> None | Some (c # cs) \<Rightarrow> Some c)"

definition parts_of :: "googleResponse \<Rightarrow> part list" where
  "parts_of r =
     (case first_candidate r of
        None \<Rightarrow> []
      | Some c \<Rightarrow> (case content_parts c of None \<Rightarrow> [] | Some ps \<Rightarrow> ps))"

fun is_tool_use :: "block \<Rightarrow> bool" where
  "is_tool_use (ToolUse i n a s) = True"
| "is_tool_use _ = False"

definition stop_reason_of :: "block list \<Rightarrow> string option \<Rightarrow> string" where
  "stop_reason_of blocks finish =
     (if list_ex is_tool_use blocks then ''tool_use''
      else if finish = Some ''STOP'' then ''end_turn''
      else if finish = Some ''MAX_TOKENS'' then ''max_tokens''
      else if finish = Some ''TOOL_USE'' then ''tool_use''
      else ''end_turn'')"

definition count_of :: "int option \<Rightarrow> int" where
  "count_of c = (case c of None \<Rightarrow> 0 | Some n \<Rightarrow> n)"

definition usage_of :: "usageMetadata option \<Rightarrow> usage" where
  "usage_of u =
     (let prompt = (case u of None \<Rightarrow> 0 | Some m \<Rightarrow> count_of (promptTokenCount m));
          cached = (case u of None \<Rightarrow> 0 | Some m \<Rightarrow> count_of (cachedContentTokenCount m));
          out = (case u of None \<Rightarrow> 0 | Some m \<Rightarrow> count_of (candidatesTokenCount m))
      in \<lparr>input_tokens = max 0 (prompt - cached),
          cache_read_input_tokens = cached,
          output_tokens = out\<rparr>)"

definition convertGoogleToAnthropic ::
  "(nat \<Rightarrow> string) \<Rightarrow> google_input \<Rightarrow> string \<Rightarrow> anthropicResponse" where
  "convertGoogleToAnthropic hex googleResp modelName =
     (let r = unwrap googleResp;
          blocks = convert_parts hex 0 (parts_of r);
          finish = (case first_candidate r of None \<Rightarrow> None | Some c \<Rightarrow> finishReason c)
      in \<lparr>message_type = ''message'',
          role = ''assistant'',
          model = modelName,
          content = (if blocks = [] then [Text ''''] else blocks),
          stop_reason = stop_reason_of blocks finish,
          usage = usage_of (usageMetadata r)\<rparr>)"

section \<open>telemetry.js: the interaction events of a trajectory payload\<close>

datatype interaction_type = TYPING | SCROLL | MOUSE_OVER | WINDOW_FOCUS | WINDOW_BLUR

datatype ui_element = EDITOR_PANE | IDE_WINDOW

text \<open>
  An event. \<open>event_time\<close> is kept as the millisecond time stamp that \<open>toISOString()\<close>
  prints.
\<close>

record interaction_event =
  event_time :: int
  interaction_type :: interaction_type
  ui_element :: ui_element

text \<open>
  The block draws from \<open>Math.random()\<close> and reads the clock (\<open>Date.now()\<close>, \<open>new Date()\<close>)
  several times: \<open>rnd j\<close> is its \<open>j\<close>-th draw, a rational in \<open>[0, 1)\<close>, and \<open>clk j\<close> its
  \<open>j\<close>-th clock reading, both counted from 0.

  \<^verbatim>\<open>
  for (let i = 0; i < numEvents; i++) {
      const offset = Math.floor(Math.random() * 5000);
      const eventTime = new Date(Date.now() - offset).toISOString();
      interactionEvents.push({ event_time: eventTime,
          interaction_type: 'TYPING', ui_element: 'EDITOR_PANE' });
  }
  \<close>
  The loop from \<open>i\<close> on, with \<open>numEvents - i\<close> iterations left.
\<close>

fun typing_events :: "(nat \<Rightarrow> rat) \<Rightarrow> (nat \<Rightarrow> int) \<Rightarrow> nat \<Rightarrow> nat \<Rightarrow> interaction_event list" where
  "typing_events rnd clk i 0 = []"
| "typing_events rnd clk i (Suc left) =
     (let offset = \<lfloor>rnd (1 + i) * 5000\<rfloor>;
          eventTime = clk (1 + i) - offset
      in \<lparr>event_time = eventTime, interaction_type = TYPING, ui_element = EDITOR_PANE\<rparr>
         # typing_events rnd clk (Suc i) left)"

text \<open>
  \<^verbatim>\<open>
  for (let i = 0; i < numEvents; i++) {
      const offset = Math.floor(Math.random() * 10000);
      const eventTime = new Date(Date.now() - offset).toISOString();
      interactionEvents.push({ event_time: eventTime,
          interaction_type: Math.random() > 0.6 ? 'SCROLL' : 'MOUSE_OVER',
          ui_element: 'EDITOR_PANE' });
  }
  \<close>
\<close>

definition idle_interaction :: "rat \<Rightarrow> interaction_type" where
  "idle_interaction u = (if u > 6 / 10 then SCROLL else MOUSE_OVER)"

fun idle_events :: "(nat \<Rightarrow> rat) \<Rightarrow> (nat \<Rightarrow> int) \<Rightarrow> nat \<Rightarrow> nat \<Rightarrow> interaction_event list" where
  "idle_events rnd clk i 0 = []"
| "idle_events rnd clk i (Suc left) =
     (let offset = \<lfloor>rnd (1 + 2 * i) * 10000\<rfloor>;
          eventTime = clk (1 + i) - offset
      in \<lparr>event_time = eventTime, interaction_type = idle_interaction (rnd (2 + 2 * i)),
          ui_element = EDITOR_PANE\<rparr>
         # idle_events rnd clk (Suc i) left)"

text \<open>
  \<^verbatim>\<open>
  if (Math.random() > 0.9) {
      interactionEvents.push({ event_time: new Date().toISOString(),
          interaction_type: Math.random() > 0.5 ? 'WINDOW_FOCUS' : 'WINDOW_BLUR',
          ui_element: 'IDE_WINDOW' });
  }
  \<close>
\<close>

definition focus_changes :: "rat \<Rightarrow> bool" where
  "focus_changes u \<longleftrightarrow> u > 9 / 10"

definition focus_interaction :: "rat \<Rightarrow> interaction_type" where
  "focus_interaction u = (if u > 5 / 10 then WINDOW_FOCUS else WINDOW_BLUR)"

text \<open>
  \<^verbatim>\<open>
  const timeSinceActivity = Date.now() - lastActivityTime;
  const interactionEvents = [];
  if (timeSinceActivity < 15000) {
      const numEvents = Math.floor(Math.random() * 5) + 3;
      ...
  } else {
      const numEvents = Math.floor(Math.random() * 3) + 1;
      ...
  }
  \<close>
\<close>

definition interactionEvents ::
  "int \<Rightarrow> (nat \<Rightarrow> rat) \<Rightarrow> (nat \<Rightarrow> int) \<Rightarrow> interaction_event list" where
  "interactionEvents lastActivityTime rnd clk =
     (let timeSinceActivity = clk 0 - lastActivityTime
      in if timeSinceActivity < 15000 then
           (let numEvents = nat (\<lfloor>rnd 0 * 5\<rfloor> + 3)
            in typing_events rnd clk 0 numEvents)
         else
           (let numEvents = nat (\<lfloor>rnd 0 * 3\<rfloor> + 1)
            in idle_events rnd clk 0 numEvents @
               (if focus_changes (rnd (1 + 2 * numEvents))
                then [\<lparr>event_time = clk (1 + numEvents),
                       interaction_type = focus_interaction (rnd (2 + 2 * numEvents)),
                       ui_element = IDE_WINDOW\<rparr>]
                else [])))"

text \<open>
  Probabilities are stated for a uniform draw on a grid: of the \<open>N\<close> equally likely draws
  \<open>0/N, 1/N, ..., (N-1)/N\<close>, \<open>grid_count N P\<close> is the number that satisfy \<open>P\<close>.
\<close>

definition grid_count :: "nat \<Rightarrow> (rat \<Rightarrow> bool) \<Rightarrow> nat" where
  "grid_count N P = card {k. k < N \<and> P (of_nat k / of_nat N)}"

section \<open>The TrafficShaper class\<close>

text \<open>
  \<open>enqueue\<close> and \<open>processQueue\<close> run on JavaScript's single thread: a piece of code runs
  from one \<open>await\<close> to the next without interruption, and at an \<open>await\<close> other code (a
  producer calling \<open>enqueue\<close>, a timer, the continuation of another \<open>processQueue\<close> call)
  may run. The model is this transition system. \<open>Date.now()\<close> gives a whole number of
  milliseconds, the clock \<open>date_now\<close>, which does not move while a piece of code runs;
  delays are rational numbers of milliseconds.

  A task is an async function: calling it gives a promise that settles later, fulfilled
  or rejected. The label names the \<open>enqueue\<close> call it came with.
\<close>

datatype task_result = Fulfilled jsval | Failed jsval

record task =
  label :: nat
  settles :: task_result

text \<open>
  A call of \<open>processQueue\<close> that is suspended: at \<open>await sleep(waitTime)\<close>, holding the task
  it has shifted, the instant \<open>now + waitTime\<close> its timer was set for and the
  \<open>requiredDelay\<close> it computed; or at \<open>await task()\<close>.
\<close>

datatype worker = Sleeping task rat rat | Running task

text \<open>
  What is observed, newest first: an \<open>enqueue\<close> call, the call \<open>task()\<close> (with the
  \<open>requiredDelay\<close> of its iteration and, if the iteration slept, the instant its timer was
  set for), the settling of the promise \<open>enqueue\<close> returned (by \<open>resolve(result)\<close> or
  \<open>reject(error)\<close>), each with the reading of \<open>Date.now()\<close> at which it happens.
\<close>

datatype event =
    Enqueued nat int
  | Started nat int rat "rat option"
  | Finished nat int task_result

text \<open>
  The fields of the class, the clock, the suspended \<open>processQueue\<close> calls, the number of
  \<open>Math.random()\<close> draws made so far and the trace.
  \<^verbatim>\<open>
  constructor() {
      this.queue = [];
      this.isProcessing = false;
      this.lastRequestTime = 0;
      this.minDelayMs = 3000;
      this.jitterMs = 2000;
  }
  \<close>
  The two delays are public fields (the tests set them before use), so the constructor of
  the model takes them.
\<close>

record system =
  date_now :: int
  queue :: "task list"
  isProcessing :: bool
  lastRequestTime :: int
  minDelayMs :: rat
  jitterMs :: rat
  workers :: "worker list"
  draws :: nat
  trace :: "event list"

definition new_shaper :: "int \<Rightarrow> rat \<Rightarrow> rat \<Rightarrow> system" where
  "new_shaper t0 m j =
     \<lparr>date_now = t0, queue = [], isProcessing = False, lastRequestTime = 0,
      minDelayMs = m, jitterMs = j, workers = [], draws = 0, trace = []\<rparr>"

definition TrafficShaper :: "int \<Rightarrow> system" where
  "TrafficShaper t0 = new_shaper t0 3000 2000"



























section \<open>The token manager: getTokenForAccount\<close>

text \<open>
  Modelled from the spec: \<open>getTokenForAccount\<close> of the account pool and token manager
  (\<open>src/account-manager/index.js\<close>, which is not among the sources; the specification's
  design notes say that the source does not coalesce concurrent refreshes and that the
  specification requires it). The specification's words are: a token cache entry, per
  account, has an \<open>accessToken\<close> and an \<open>expiresAt\<close>, and is valid iff
  \<open>now < expiresAt - 60 s\<close>; \<open>getTokenForAccount(account)\<close> returns the cache entry if it is
  valid, and otherwise performs an OAuth refresh and caches the result; two concurrent
  refreshes for the same account must coalesce into one network call; concurrent callers
  for the same email share one in-flight refresh and observe the same result; model this
  as a small table of in-flight promises keyed by account email.

  Times are milliseconds. The network is an input: it answers a refresh with a new cache
  entry or refuses it with an error.
\<close>

record cache_entry =
  accessToken :: string
  expiresAt :: int

definition SKEW_MS :: int where
  "SKEW_MS = 60000"

text \<open>
  Modelled from the spec: the token of a cache entry that is valid at \<open>now\<close>, that is with
  \<open>now < expiresAt - 60 s\<close>; no entry is no valid entry.
\<close>

definition cached :: "cache_entry option \<Rightarrow> int \<Rightarrow> string option" where
  "cached entry now =
     (case entry of
        None \<Rightarrow> None
      | Some c \<Rightarrow> if now < expiresAt c - SKEW_MS then Some (accessToken c) else None)"














chapter \<open>Properties\<close>

section \<open>Strings\<close>

lemma startsWith_iff: "startsWith s p \<longleftrightarrow> (\<exists>t. s = p @ t)"
  by (induction s p rule: startsWith.induct) auto

lemma includes_iff: "str_includes s p \<longleftrightarrow> (\<exists>a b. s = a @ p @ b)"
proof (induction s)
  case Nil
  then show ?case by auto
next
  case (Cons c cs)
  show ?case
  proof
    assume "str_includes (c # cs) p"
    then consider "startsWith (c # cs) p" | "str_includes cs p" by auto
    then show "\<exists>a b. c # cs = a @ p @ b"
    proof cases
      case 1
      then obtain t where "c # cs = p @ t" by (auto simp: startsWith_iff)
      then have "c # cs = [] @ p @ t" by simp
      then show ?thesis by blast
    next
      case 2
      then obtain a b where "cs = a @ p @ b" using Cons.IH by blast
      then have "c # cs = (c # a) @ p @ b" by simp
      then show ?thesis by blast
    qed
  next
    assume "\<exists>a b. c # cs = a @ p @ b"
    then obtain a b where ab: "c # cs = a @ p @ b" by blast
    show "str_includes (c # cs) p"
    proof (cases a)
      case Nil
      with ab have "startsWith (c # cs) p" by (auto simp: startsWith_iff)
      then show ?thesis by simp
    next
      case (Cons x a')
      with ab have "cs = a' @ p @ b" by simp
      then have "str_includes cs p" using Cons.IH by blast
      then show ?thesis by simp
    qed
  qed
qed

section \<open>isNetworkError\<close>

lemma isNetworkError_string:
  "message_of e = Inr (JStr m) \<Longrightarrow>
   isNetworkError e = Inr (\<exists>p \<in> set network_error_substrings. str_includes (toLowerCase m) p)"
  by (simp add: isNetworkError_def network_error_substrings_def Let_def)

text \<open>
  Claim C5. For an error whose message is a string \<open>m\<close>, \<open>isNetworkError\<close> returns a
  boolean, and it is true exactly when the lower-cased message contains one of the six
  substrings (somewhere: \<open>toLowerCase m = a @ p @ b\<close>). The match is case-insensitive: two
  messages with the same lower-casing get the same answer, and upper-case spellings of the
  substrings are found. The empty message and the messages \<open>Internal Server Error\<close>,
  \<open>404 Not Found\<close> and \<open>JSON Parse Error\<close> give false.
\<close>

theorem isNetworkError_substring_match:
  "(message_of e = Inr (JStr m) \<longrightarrow>
      isNetworkError e =
        Inr (\<exists>p \<in> set network_error_substrings. \<exists>a b. toLowerCase m = a @ p @ b)) \<and>
   (message_of e = Inr (JStr m) \<and> message_of e' = Inr (JStr m') \<and>
      toLowerCase m = toLowerCase m' \<longrightarrow> isNetworkError e = isNetworkError e') \<and>
   isNetworkError (mkError ''FETCH FAILED'') = Inr True \<and>
   isNetworkError (mkError ''Network Error'') = Inr True \<and>
   isNetworkError (mkError ''ECONNRESET'') = Inr True \<and>
   isNetworkError (mkError ''ETIMEDOUT'') = Inr True \<and>
   isNetworkError (mkError ''Socket Hang Up'') = Inr True \<and>
   isNetworkError (mkError ''request Timeout'') = Inr True \<and>
   isNetworkError (mkError '''') = Inr False \<and>
   isNetworkError (mkError ''Internal Server Error'') = Inr False \<and>
   isNetworkError (mkError ''404 Not Found'') = Inr False \<and>
   isNetworkError (mkError ''JSON Parse Error'') = Inr False"
proof -
  have general: "message_of e = Inr (JStr m) \<longrightarrow>
      isNetworkError e =
        Inr (\<exists>p \<in> set network_error_substrings. \<exists>a b. toLowerCase m = a @ p @ b)"
    by (simp add: isNetworkError_string includes_iff)
  have insensitive: "message_of e = Inr (JStr m) \<and> message_of e' = Inr (JStr m') \<and>
      toLowerCase m = toLowerCase m' \<longrightarrow> isNetworkError e = isNetworkError e'"
    by (simp add: isNetworkError_string)
  have t1: "isNetworkError (mkError ''FETCH FAILED'') = Inr True" by code_simp
  have t2: "isNetworkError (mkError ''Network Error'') = Inr True" by code_simp
  have t3: "isNetworkError (mkError ''ECONNRESET'') = Inr True" by code_simp
  have t4: "isNetworkError (mkError ''ETIMEDOUT'') = Inr True" by code_simp
  have t5: "isNetworkError (mkError ''Socket Hang Up'') = Inr True" by code_simp
  have t6: "isNetworkError (mkError ''request Timeout'') = Inr True" by code_simp
  have f0: "isNetworkError (mkError '''') = Inr False" by code_simp
  have f1: "isNetworkError (mkError ''Internal Server Error'') = Inr False" by code_simp
  have f2: "isNetworkError (mkError ''404 Not Found'') = Inr False" by code_simp
  have f3: "isNetworkError (mkError ''JSON Parse Error'') = Inr False" by code_simp
  from general insensitive t1 t2 t3 t4 t5 t6 f0 f1 f2 f3 show ?thesis by blast
qed

theorem isNetworkError_substring_match_witness:
  "message_of (mkError ''read ECONNRESET'') = Inr (JStr ''read ECONNRESET'') \<and>
   toLowerCase ''read ECONNRESET'' = ''read '' @ ''econnreset'' @ [] \<and>
   ''econnreset'' \<in> set network_error_substrings \<and>
   isNetworkError (mkError ''read ECONNRESET'') = Inr True \<and>
   message_of (mkError ''READ econnreset'') = Inr (JStr ''READ econnreset'') \<and>
   toLowerCase ''read ECONNRESET'' = toLowerCase ''READ econnreset'' \<and>
   isNetworkError (mkError ''read ECONNRESET'') = isNetworkError (mkError ''READ econnreset'')"
proof -
  have m1: "message_of (mkError ''read ECONNRESET'') = Inr (JStr ''read ECONNRESET'')"
    by (simp add: mkError_def)
  have m2: "message_of (mkError ''READ econnreset'') = Inr (JStr ''READ econnreset'')"
    by (simp add: mkError_def)
  have low: "toLowerCase ''read ECONNRESET'' = ''read '' @ ''econnreset'' @ []"
    by code_simp
  have same: "toLowerCase ''read ECONNRESET'' = toLowerCase ''READ econnreset''"
    by code_simp
  have mem: "''econnreset'' \<in> set network_error_substrings"
    by (simp add: network_error_substrings_def)
  from isNetworkError_substring_match
    [of "mkError ''read ECONNRESET''" "''read ECONNRESET''"
        "mkError ''READ econnreset''" "''READ econnreset''"]
  have use:
    "isNetworkError (mkError ''read ECONNRESET'') =
       Inr (\<exists>p \<in> set network_error_substrings. \<exists>a b. toLowerCase ''read ECONNRESET'' = a @ p @ b)"
    "isNetworkError (mkError ''read ECONNRESET'') = isNetworkError (mkError ''READ econnreset'')"
    using m1 m2 same by blast+
  have "\<exists>p \<in> set network_error_substrings. \<exists>a b. toLowerCase ''read ECONNRESET'' = a @ p @ b"
    using mem low by blast
  with use(1) have "isNetworkError (mkError ''read ECONNRESET'') = Inr True" by simp
  with m1 m2 low same mem use(2) show ?thesis by blast
qed

text \<open>
  Claim C10. \<open>isNetworkError\<close> returns a boolean only when the message is a string. When
  the \<open>message\<close> property is absent, \<open>undefined\<close> or \<open>null\<close>, the unguarded
  \<open>error.message.toLowerCase()\<close> throws a \<open>TypeError\<close> and no \<open>false\<close> is returned; the
  empty string is a string and gives \<open>false\<close>.
\<close>

theorem isNetworkError_throws_without_string_message:
  "(message_of e = Inr JUndefined \<or> message_of e = Inr JNull \<longrightarrow>
      isNetworkError e = Inl TypeError) \<and>
   ((\<exists>b. isNetworkError e = Inr b) \<longleftrightarrow> (\<exists>m. message_of e = Inr (JStr m))) \<and>
   ((\<forall>m. message_of e \<noteq> Inr (JStr m)) \<longrightarrow> isNetworkError e = Inl TypeError) \<and>
   isNetworkError (JObj []) = Inl TypeError \<and>
   isNetworkError (JObj [(''message'', JUndefined)]) = Inl TypeError \<and>
   isNetworkError (JObj [(''message'', JNull)]) = Inl TypeError \<and>
   isNetworkError (JObj [(''message'', JStr '''')]) = Inr False"
proof -
  have a: "message_of e = Inr JUndefined \<or> message_of e = Inr JNull \<longrightarrow>
      isNetworkError e = Inl TypeError"
    by (auto simp: isNetworkError_def)
  have c: "(\<forall>m. message_of e \<noteq> Inr (JStr m)) \<longrightarrow> isNetworkError e = Inl TypeError"
    by (cases e rule: message_of.cases)
       (auto simp: isNetworkError_def split: option.splits jsval.splits)
  have b: "(\<exists>b. isNetworkError e = Inr b) \<longleftrightarrow> (\<exists>m. message_of e = Inr (JStr m))"
    using c by (auto simp: isNetworkError_string)
  have d: "isNetworkError (JObj []) = Inl TypeError"
    by (simp add: isNetworkError_def)
  have e1: "isNetworkError (JObj [(''message'', JUndefined)]) = Inl TypeError"
    by (simp add: isNetworkError_def)
  have e2: "isNetworkError (JObj [(''message'', JNull)]) = Inl TypeError"
    by (simp add: isNetworkError_def)
  have f: "isNetworkError (JObj [(''message'', JStr '''')]) = Inr False"
    by (simp add: isNetworkError_def toLowerCase_def)
  from a b c d e1 e2 f show ?thesis by blast
qed

theorem isNetworkError_throws_without_string_message_witness:
  "message_of (JObj [(''code'', JStr ''E1'')]) = Inr JUndefined \<and>
   isNetworkError (JObj [(''code'', JStr ''E1'')]) = Inl TypeError \<and>
   \<not> (\<exists>b. isNetworkError (JObj [(''code'', JStr ''E1'')]) = Inr b)"
proof -
  have m: "message_of (JObj [(''code'', JStr ''E1'')]) = Inr JUndefined" by simp
  from isNetworkError_throws_without_string_message [of "JObj [(''code'', JStr ''E1'')]"] m
  have "isNetworkError (JObj [(''code'', JStr ''E1'')]) = Inl TypeError" by blast
  with m show ?thesis by simp
qed

section \<open>throttledFetch\<close>

lemma message_of_mkError: "message_of (mkError m) = Inr (JStr m)"
  by (simp add: mkError_def)

lemma isNetworkError_total_on_strings:
  "message_of e = Inr (JStr m) \<Longrightarrow> \<exists>b. isNetworkError e = Inr b"
  by (simp add: isNetworkError_def Let_def)

lemma http_error_message:
  assumes "status \<in> {500, 502, 503, 504}"
  shows "message_startsWith (mkError (''HTTP '' @ string_of_nat status)) ''HTTP 5'' = Inr True"
proof -
  have "startsWith (''HTTP '' @ string_of_nat 500) ''HTTP 5''" by code_simp
  moreover have "startsWith (''HTTP '' @ string_of_nat 502) ''HTTP 5''" by code_simp
  moreover have "startsWith (''HTTP '' @ string_of_nat 503) ''HTTP 5''" by code_simp
  moreover have "startsWith (''HTTP '' @ string_of_nat 504) ''HTTP 5''" by code_simp
  ultimately have "startsWith (''HTTP '' @ string_of_nat status) ''HTTP 5''"
    using assms by auto
  then show ?thesis
    by (simp add: message_startsWith_def message_of_mkError)
qed

lemma attempt_retried:
  assumes wf: "\<forall>e. net a = Rejects e \<longrightarrow> (\<exists>m. message_of e = Inr (JStr m))"
    and a: "a < MAX_RETRIES" and r: "retry_condition (net a)"
  shows "\<exists>d. attempt_loop net z a =
            (fst (attempt_loop net z (a + 1)),
             Request a # Sleep d # snd (attempt_loop net z (a + 1)))"
proof (cases "net a")
  case (Responds status)
  with r have st: "status \<in> {500, 502, 503, 504}" by (simp add: retry_condition_def)
  let ?err = "mkError (''HTTP '' @ string_of_nat status)"
  have built: "new_Response status = Inr status"
    using st by (auto simp: new_Response_def)
  have t: "try_request a (net a) = Catch ?err"
    using Responds st a built by (auto simp: try_request_def)
  obtain b where b: "isNetworkError ?err = Inr b"
    using isNetworkError_total_on_strings [OF message_of_mkError] by blast
  have "\<exists>d. catch_error a (z a) ?err = Continue d"
    using http_error_message [OF st] b a by (simp add: catch_error_def Let_def)
  then obtain d where "catch_error a (z a) ?err = Continue d" ..
  with t a show ?thesis
    by (subst attempt_loop.simps) (auto split: prod.splits)
next
  case (Rejects e)
  with wf obtain m where m: "message_of e = Inr (JStr m)" by blast
  have t: "try_request a (net a) = Catch e"
    using Rejects by (simp add: try_request_def)
  obtain b where b: "isNetworkError e = Inr b"
    using isNetworkError_total_on_strings [OF m] by blast
  have s: "message_startsWith e ''HTTP 5'' = Inr (startsWith m ''HTTP 5'')"
    using m by (simp add: message_startsWith_def)
  from r Rejects have "startsWith m ''HTTP 5'' \<or> b"
    using s b by (auto simp: retry_condition_def)
  then have "\<exists>d. catch_error a (z a) e = Continue d"
    using s b a by (auto simp: catch_error_def Let_def)
  then obtain d where "catch_error a (z a) e = Continue d" ..
  with t a show ?thesis
    by (subst attempt_loop.simps) (auto split: prod.splits)
qed

lemma attempt_settled:
  assumes wf: "\<forall>e. net a = Rejects e \<longrightarrow> (\<exists>m. message_of e = Inr (JStr m))"
    and a: "a \<le> MAX_RETRIES" and r: "\<not> (a < MAX_RETRIES \<and> retry_condition (net a))"
  shows "attempt_loop net z a = (settle (net a), [Request a])"
proof (cases "net a")
  case (Responds code)
  show ?thesis
  proof (cases "new_Response code")
    case (Inl e)
    with Responds have "try_request a (net a) = Stuck e"
      by (simp add: try_request_def)
    with a Responds Inl show ?thesis
      by (subst attempt_loop.simps) (simp add: settle_def)
  next
    case (Inr status)
    then have same: "status = code"
      by (auto simp: new_Response_def split: if_splits)
    with r Responds Inr have "try_request a (net a) = Return status"
      by (auto simp: try_request_def retry_condition_def)
    with a Responds Inr show ?thesis
      by (subst attempt_loop.simps) (simp add: settle_def)
  qed
next
  case (Rejects e)
  with wf obtain m where m: "message_of e = Inr (JStr m)" by blast
  have t: "try_request a (net a) = Catch e"
    using Rejects by (simp add: try_request_def)
  obtain b where b: "isNetworkError e = Inr b"
    using isNetworkError_total_on_strings [OF m] by blast
  have s: "message_startsWith e ''HTTP 5'' = Inr (startsWith m ''HTTP 5'')"
    using m by (simp add: message_startsWith_def)
  from r Rejects have "\<not> (a < MAX_RETRIES \<and> (startsWith m ''HTTP 5'' \<or> b))"
    using s b by (auto simp: retry_condition_def)
  then have "catch_error a (z a) e = Rethrow (Value e)"
    using s b by (auto simp: catch_error_def Let_def)
  with t a Rejects show ?thesis
    by (subst attempt_loop.simps) (simp add: settle_def)
qed

lemma requests_of_pre_call_delay: "requests_of (pre_call_delay cfg z0 @ es) = requests_of es"
  by (simp add: pre_call_delay_def Let_def)

lemma throttledFetch_proj:
  "fst (throttledFetch cfg z0 net z) = fst (attempt_loop net z 0)"
  "requests_of (snd (throttledFetch cfg z0 net z)) = requests_of (snd (attempt_loop net z 0))"
  by (simp_all add: throttledFetch_def requests_of_pre_call_delay split: prod.splits)

lemma attempt_loop_closed_form:
  assumes wf: "\<forall>k e. net k = Rejects e \<longrightarrow> (\<exists>m. message_of e = Inr (JStr m))"
  shows "fst (attempt_loop net z 0) = settle (net (attempts_made net - 1)) \<and>
         requests_of (snd (attempt_loop net z 0)) = [0..<attempts_made net]"
proof -
  have wfk: "\<forall>e. net k = Rejects e \<longrightarrow> (\<exists>m. message_of e = Inr (JStr m))" for k
    using wf by blast
  have two: "attempt_loop net z 2 = (settle (net 2), [Request 2])"
    using attempt_settled [of net 2 z, OF wfk] by (simp add: MAX_RETRIES_def)
  have upt3: "[0..<3] = [0, 1, 2::nat]" "[0..<2] = [0, 1::nat]" "[0..<1] = [0::nat]"
    by (simp_all add: upt_rec)
  show ?thesis
  proof (cases "retry_condition (net 0)")
    case False
    then have "attempt_loop net z 0 = (settle (net 0), [Request 0])"
      using attempt_settled [of net 0 z, OF wfk] by (simp add: MAX_RETRIES_def)
    with False show ?thesis by (simp add: attempts_made_def upt3)
  next
    case r0: True
    then obtain d0 where l0: "attempt_loop net z 0 =
        (fst (attempt_loop net z 1), Request 0 # Sleep d0 # snd (attempt_loop net z 1))"
      using attempt_retried [of net 0 z, OF wfk] by (auto simp: MAX_RETRIES_def)
    show ?thesis
    proof (cases "retry_condition (net 1)")
      case False
      then have "attempt_loop net z 1 = (settle (net 1), [Request 1])"
        using attempt_settled [of net 1 z, OF wfk] by (simp add: MAX_RETRIES_def)
      with False r0 l0 show ?thesis by (simp add: attempts_made_def upt3)
    next
      case r1: True
      then obtain d1 where l1: "attempt_loop net z 1 =
          (fst (attempt_loop net z 2), Request 1 # Sleep d1 # snd (attempt_loop net z 2))"
        using attempt_retried [of net 1 z, OF wfk] by (auto simp: MAX_RETRIES_def numeral_2_eq_2)
      with r0 r1 l0 two show ?thesis by (simp add: attempts_made_def upt3)
    qed
  qed
qed

text \<open>
  Claim C2, as amended. Let every error the network throws carry a string message. Then
  \<open>throttledFetch\<close> makes \<open>n\<close> requests, numbered \<open>0 .. n - 1\<close>, with \<open>1 \<le> n \<le> 3\<close>. Request
  \<open>k\<close> is followed by another one exactly when \<open>k < MAX_RETRIES\<close> and its outcome meets the
  retry condition: a response with status 500, 502, 503 or 504, or a thrown error that is
  a network error or whose message starts with \<open>HTTP 5\<close>. A 429 response is never retried:
  the request that gets it is the last one and the response is returned. After the last
  request the call fails with the error thrown, unchanged, if that request threw; if it
  got a response, also a 5xx response to the third request, the call returns that
  response, provided the \<open>Response\<close> constructor accepts its status (else the listener
  throws and no response is returned).
\<close>

theorem throttledFetch_retry_policy:
  assumes "\<forall>k e. net k = Rejects e \<longrightarrow> (\<exists>m. message_of e = Inr (JStr m))"
  shows "\<exists>n. 1 \<le> n \<and> n \<le> 3 \<and>
           requests_of (snd (throttledFetch cfg z0 net z)) = [0..<n] \<and>
           (\<forall>k<n. (Suc k < n) = (k < MAX_RETRIES \<and> retry_condition (net k))) \<and>
           fst (throttledFetch cfg z0 net z) =
             (case net (n - 1) of
                Responds code \<Rightarrow>
                  (case new_Response code of
                     Inl e \<Rightarrow> ListenerThrew e
                   | Inr status \<Rightarrow> Returned status)
              | Rejects e \<Rightarrow> Threw (Value e)) \<and>
           (\<forall>k<n. net k = Responds 429 \<longrightarrow>
              Suc k = n \<and> fst (throttledFetch cfg z0 net z) = Returned 429)"
proof -
  let ?n = "attempts_made net"
  from attempt_loop_closed_form [OF assms, of z]
  have res: "fst (throttledFetch cfg z0 net z) = settle (net (?n - 1))"
    and reqs: "requests_of (snd (throttledFetch cfg z0 net z)) = [0..<?n]"
    by (simp_all add: throttledFetch_proj)
  have bounds: "1 \<le> ?n" "?n \<le> 3" by (simp_all add: attempts_made_def)
  have retry: "\<forall>k<?n. (Suc k < ?n) = (k < MAX_RETRIES \<and> retry_condition (net k))"
    by (auto simp: attempts_made_def MAX_RETRIES_def less_Suc_eq numeral_3_eq_3 numeral_2_eq_2
             split: if_splits)
  have no429: "\<not> retry_condition (Responds 429)" by (simp add: retry_condition_def)
  have last: "\<forall>k<?n. net k = Responds 429 \<longrightarrow> Suc k = ?n"
    using no429
    by (auto simp: attempts_made_def less_Suc_eq numeral_3_eq_3 numeral_2_eq_2 split: if_splits)
  have r429: "\<forall>k<?n. net k = Responds 429 \<longrightarrow>
                Suc k = ?n \<and> fst (throttledFetch cfg z0 net z) = Returned 429"
  proof (intro allI impI)
    fix k assume k: "k < ?n" and n: "net k = Responds 429"
    with last have s: "Suc k = ?n" by blast
    then have "?n - 1 = k" by simp
    with res n have "fst (throttledFetch cfg z0 net z) = Returned 429"
      by (simp add: settle_def new_Response_def)
    with s show "Suc k = ?n \<and> fst (throttledFetch cfg z0 net z) = Returned 429" by simp
  qed
  from res have res': "fst (throttledFetch cfg z0 net z) =
             (case net (?n - 1) of
                Responds code \<Rightarrow>
                  (case new_Response code of
                     Inl e \<Rightarrow> ListenerThrew e
                   | Inr status \<Rightarrow> Returned status)
              | Rejects e \<Rightarrow> Threw (Value e))"
    by (simp add: settle_def)
  from bounds reqs retry res' r429 show ?thesis by blast
qed


theorem throttledFetch_retry_policy_witness:
  "retry_condition (Rejects (mkError ''socket hang up'')) \<and>
   fst (throttledFetch \<lparr>requestThrottlingEnabled = True, requestDelayMs = None\<rparr> 0
          (\<lambda>k. if k = 0 then Rejects (mkError ''socket hang up'') else Responds 429)
          (\<lambda>_. 0)) = Returned 429 \<and>
   requests_of (snd (throttledFetch \<lparr>requestThrottlingEnabled = True, requestDelayMs = None\<rparr> 0
          (\<lambda>k. if k = 0 then Rejects (mkError ''socket hang up'') else Responds 429)
          (\<lambda>_. 0))) = [0, 1]"
proof -
  let ?net = "\<lambda>k::nat. if k = 0 then Rejects (mkError ''socket hang up'') else Responds 429"
  let ?R = "throttledFetch \<lparr>requestThrottlingEnabled = True, requestDelayMs = None\<rparr> 0 ?net (\<lambda>_. 0)"
  have hyp: "\<forall>k e. ?net k = Rejects e \<longrightarrow> (\<exists>m. message_of e = Inr (JStr m))"
    by (auto simp: message_of_mkError)
  have r0: "retry_condition (?net 0)" by code_simp
  from throttledFetch_retry_policy [OF hyp]
  obtain n where n: "1 \<le> n" "n \<le> 3" "requests_of (snd ?R) = [0..<n]"
    "\<forall>k<n. (Suc k < n) = (k < MAX_RETRIES \<and> retry_condition (?net k))"
    "\<forall>k<n. ?net k = Responds 429 \<longrightarrow> Suc k = n \<and> fst ?R = Returned 429"
    by blast
  from n(1) n(4) r0 have "Suc 0 < n" by (auto simp: MAX_RETRIES_def)
  with n(5) have "Suc 1 = n \<and> fst ?R = Returned 429" by auto
  with n(3) have "fst ?R = Returned 429" "requests_of (snd ?R) = [0, 1]"
    by (auto simp: upt_rec)
  with r0 show ?thesis by simp
qed

text \<open>
  The claim as it was stated fails on the last attempt: three responses with status 503
  exhaust the retries, and the call returns the third response instead of failing with an
  error. It also retries a thrown error that is no network error when its message starts
  with \<open>HTTP 5\<close>.
\<close>

theorem throttledFetch_exhausted_5xx_counterexample:
  "throttledFetch \<lparr>requestThrottlingEnabled = False, requestDelayMs = None\<rparr> 0
      (\<lambda>_. Responds 503) (\<lambda>_. 0)
     = (Returned 503, [Request 0, Sleep 1000, Request 1, Sleep 2000, Request 2]) \<and>
   isNetworkError (mkError ''HTTP 5xx from a proxy'') = Inr False \<and>
   requests_of (snd (throttledFetch \<lparr>requestThrottlingEnabled = False, requestDelayMs = None\<rparr> 0
      (\<lambda>k. if k = 0 then Rejects (mkError ''HTTP 5xx from a proxy'') else Responds 200)
      (\<lambda>_. 0))) = [0, 1]"
  by code_simp

section \<open>Fingerprints\<close>

lemma generateFingerprint_userAgent: "startsWith (userAgent (generateFingerprint k r)) ''Mozilla/5.0''"
  by (simp add: generateFingerprint_def Let_def)

lemma legacy_not_mozilla: "startsWith s ''Mozilla/'' \<Longrightarrow> \<not> startsWith s ''antigravity/''"
  by (auto simp: startsWith_iff)

text \<open>
  Claim C7. Let \<open>a\<close> refer to a fingerprint object \<open>fp\<close> of the heap. If \<open>fp.userAgent\<close>
  starts with \<open>antigravity/\<close>, \<open>updateFingerprintVersion\<close> returns a reference to a new
  object: \<open>fp\<close> with \<open>userAgent\<close> and \<open>clientMetadata\<close> replaced by those of a freshly
  generated fingerprint (whose user agent starts with \<open>Mozilla/5.0\<close>) and every other
  field, \<open>deviceId\<close>, \<open>sessionToken\<close>, \<open>quotaUser\<close>, \<open>createdAt\<close> and \<open>apiClient\<close>, as it
  was; the object \<open>fp\<close> itself is not changed. Otherwise, and in particular when the user
  agent starts with \<open>Mozilla/\<close>, the very same reference comes back and the heap is as it
  was: no copy is made.
\<close>

theorem updateFingerprintVersion_legacy_or_identity:
  assumes "a < length h"
  shows
    "(startsWith (userAgent (h ! a)) ''antigravity/'' \<longrightarrow>
        (\<exists>b h'. updateFingerprintVersion k r h (Ref a) = (Ref b, h') \<and>
           b \<noteq> a \<and> b < length h' \<and> h' ! a = h ! a \<and>
           h' ! b = (h ! a)\<lparr>userAgent := userAgent (generateFingerprint k r),
                            clientMetadata := clientMetadata (generateFingerprint k r)\<rparr> \<and>
           startsWith (userAgent (h' ! b)) ''Mozilla/5.0'' \<and>
           deviceId (h' ! b) = deviceId (h ! a) \<and>
           sessionToken (h' ! b) = sessionToken (h ! a) \<and>
           quotaUser (h' ! b) = quotaUser (h ! a) \<and>
           createdAt (h' ! b) = createdAt (h ! a) \<and>
           apiClient (h' ! b) = apiClient (h ! a))) \<and>
     (\<not> startsWith (userAgent (h ! a)) ''antigravity/'' \<longrightarrow>
        updateFingerprintVersion k r h (Ref a) = (Ref a, h)) \<and>
     (startsWith (userAgent (h ! a)) ''Mozilla/'' \<longrightarrow>
        updateFingerprintVersion k r h (Ref a) = (Ref a, h))"
proof -
  have legacy: "startsWith (userAgent (h ! a)) ''antigravity/'' \<longrightarrow>
        (\<exists>b h'. updateFingerprintVersion k r h (Ref a) = (Ref b, h') \<and>
           b \<noteq> a \<and> b < length h' \<and> h' ! a = h ! a \<and>
           h' ! b = (h ! a)\<lparr>userAgent := userAgent (generateFingerprint k r),
                            clientMetadata := clientMetadata (generateFingerprint k r)\<rparr> \<and>
           startsWith (userAgent (h' ! b)) ''Mozilla/5.0'' \<and>
           deviceId (h' ! b) = deviceId (h ! a) \<and>
           sessionToken (h' ! b) = sessionToken (h ! a) \<and>
           quotaUser (h' ! b) = quotaUser (h ! a) \<and>
           createdAt (h' ! b) = createdAt (h ! a) \<and>
           apiClient (h' ! b) = apiClient (h ! a))"
  proof
    assume old: "startsWith (userAgent (h ! a)) ''antigravity/''"
    then have ne: "userAgent (h ! a) \<noteq> []" by auto
    let ?copy = "(h ! a)\<lparr>userAgent := userAgent (generateFingerprint k r),
                          clientMetadata := clientMetadata (generateFingerprint k r)\<rparr>"
    let ?h' = "h @ [generateFingerprint k r, ?copy]"
    let ?b = "Suc (length h)"
    have res: "updateFingerprintVersion k r h (Ref a) = (Ref ?b, ?h')"
      using assms old ne by (simp add: updateFingerprintVersion_def Let_def)
    have at_b: "?h' ! ?b = ?copy"
      by (simp add: nth_append)
    have at_a: "?h' ! a = h ! a"
      using assms by (simp add: nth_append)
    have ua: "startsWith (userAgent ?copy) ''Mozilla/5.0''"
      using generateFingerprint_userAgent [of k r] by simp
    from res at_a at_b ua assms
    show "\<exists>b h'. updateFingerprintVersion k r h (Ref a) = (Ref b, h') \<and>
           b \<noteq> a \<and> b < length h' \<and> h' ! a = h ! a \<and>
           h' ! b = (h ! a)\<lparr>userAgent := userAgent (generateFingerprint k r),
                            clientMetadata := clientMetadata (generateFingerprint k r)\<rparr> \<and>
           startsWith (userAgent (h' ! b)) ''Mozilla/5.0'' \<and>
           deviceId (h' ! b) = deviceId (h ! a) \<and>
           sessionToken (h' ! b) = sessionToken (h ! a) \<and>
           quotaUser (h' ! b) = quotaUser (h ! a) \<and>
           createdAt (h' ! b) = createdAt (h ! a) \<and>
           apiClient (h' ! b) = apiClient (h ! a)"
      by (intro exI [of _ ?b] exI [of _ ?h']) simp
  qed
  have current: "\<not> startsWith (userAgent (h ! a)) ''antigravity/'' \<longrightarrow>
        updateFingerprintVersion k r h (Ref a) = (Ref a, h)"
    by (simp add: updateFingerprintVersion_def)
  have mozilla: "startsWith (userAgent (h ! a)) ''Mozilla/'' \<longrightarrow>
        updateFingerprintVersion k r h (Ref a) = (Ref a, h)"
    using current legacy_not_mozilla by blast
  from legacy current mozilla show ?thesis by blast
qed

theorem updateFingerprintVersion_legacy_or_identity_witness:
  "(0::nat) < length [\<lparr>deviceId = ''d-1'', sessionToken = ''s-1'',
        userAgent = ''antigravity/0.0.1 darwin/x64'', apiClient = ''c-1'',
        clientMetadata = \<lparr>ideType = 0, platform = UNSPECIFIED, pluginType = 0,
                           osVersion = ''14.5'', arch = ''x64'', sqmId = ''q''\<rparr>,
        quotaUser = ''device-1'', createdAt = 7\<rparr>] \<and>
   startsWith ''antigravity/0.0.1 darwin/x64'' ''antigravity/'' \<and>
   (\<exists>b h'. updateFingerprintVersion \<lparr>IDE_TYPE_ANTIGRAVITY = 9, PLUGIN_TYPE_GEMINI = 2\<rparr>
              \<lparr>draw = (\<lambda>_. 1 / 2), deviceUuid = ''d-2'', sessionHex = ''s-2'', sqmUuid = ''ab'',
               quotaHex = ''ff'', clock = 8\<rparr>
              [\<lparr>deviceId = ''d-1'', sessionToken = ''s-1'',
                userAgent = ''antigravity/0.0.1 darwin/x64'', apiClient = ''c-1'',
                clientMetadata = \<lparr>ideType = 0, platform = UNSPECIFIED, pluginType = 0,
                                   osVersion = ''14.5'', arch = ''x64'', sqmId = ''q''\<rparr>,
                quotaUser = ''device-1'', createdAt = 7\<rparr>] (Ref 0) = (Ref b, h') \<and>
      b \<noteq> 0 \<and> deviceId (h' ! b) = ''d-1'' \<and> sessionToken (h' ! b) = ''s-1'' \<and>
      quotaUser (h' ! b) = ''device-1'' \<and> createdAt (h' ! b) = 7 \<and>
      startsWith (userAgent (h' ! b)) ''Mozilla/5.0'')"
proof -
  let ?old = "\<lparr>deviceId = ''d-1'', sessionToken = ''s-1'',
        userAgent = ''antigravity/0.0.1 darwin/x64'', apiClient = ''c-1'',
        clientMetadata = \<lparr>ideType = 0, platform = UNSPECIFIED, pluginType = 0,
                           osVersion = ''14.5'', arch = ''x64'', sqmId = ''q''\<rparr>,
        quotaUser = ''device-1'', createdAt = 7\<rparr>"
  let ?k = "\<lparr>IDE_TYPE_ANTIGRAVITY = 9, PLUGIN_TYPE_GEMINI = 2\<rparr>"
  let ?r = "\<lparr>draw = (\<lambda>_. 1 / 2), deviceUuid = ''d-2'', sessionHex = ''s-2'', sqmUuid = ''ab'',
           quotaHex = ''ff'', clock = 8\<rparr>"
  have len: "(0::nat) < length [?old]" by simp
  have legacy: "startsWith ''antigravity/0.0.1 darwin/x64'' ''antigravity/''" by simp
  then have legacy': "startsWith (userAgent ([?old] ! 0)) ''antigravity/''" by simp
  from updateFingerprintVersion_legacy_or_identity [OF len, of ?k ?r] legacy'
  obtain b h' where res: "updateFingerprintVersion ?k ?r [?old] (Ref 0) = (Ref b, h')"
    and b: "b \<noteq> 0"
    and ua: "startsWith (userAgent (h' ! b)) ''Mozilla/5.0''"
    and kept: "deviceId (h' ! b) = deviceId ([?old] ! 0)"
      "sessionToken (h' ! b) = sessionToken ([?old] ! 0)"
      "quotaUser (h' ! b) = quotaUser ([?old] ! 0)"
      "createdAt (h' ! b) = createdAt ([?old] ! 0)"
    by blast
  from kept have kept': "deviceId (h' ! b) = ''d-1''" "sessionToken (h' ! b) = ''s-1''"
    "quotaUser (h' ! b) = ''device-1''" "createdAt (h' ! b) = 7"
    by simp_all
  from len legacy res b ua kept' show ?thesis by blast
qed

section \<open>Fingerprint history\<close>

lemma well_formed_new_account: "well_formed (new_account e fp)"
  by (simp add: well_formed_def new_account_def held_def)

lemma length_remove_at: "n < length xs \<Longrightarrow> length (remove_at n xs) = length xs - 1"
  by (simp add: remove_at_def)

lemma remove_at_Cons: "remove_at (Suc n) (x # xs) = x # remove_at n xs"
  by (simp add: remove_at_def)

lemma distinct_nth_remove_at:
  assumes "distinct (map f xs)" and "n < length xs"
  shows "f (xs ! n) \<notin> set (map f (remove_at n xs)) \<and> distinct (map f (remove_at n xs)) \<and>
         set (map f (remove_at n xs)) \<subseteq> set (map f xs)"
proof -
  from assms(2) have split: "xs = take n xs @ xs ! n # drop (Suc n) xs"
    by (rule id_take_nth_drop)
  have "distinct (map f (take n xs @ xs ! n # drop (Suc n) xs))"
    using assms(1) split by simp
  then have d: "distinct (map f (take n xs)) \<and> distinct (map f (drop (Suc n) xs)) \<and>
      f (xs ! n) \<notin> f ` set (take n xs) \<and> f (xs ! n) \<notin> f ` set (drop (Suc n) xs) \<and>
      f ` set (take n xs) \<inter> f ` set (drop (Suc n) xs) = {}"
    by auto
  have sub: "set (take n xs) \<subseteq> set xs" "set (drop (Suc n) xs) \<subseteq> set xs"
    by (auto dest: in_set_takeD in_set_dropD)
  from d sub show ?thesis
    by (auto simp: remove_at_def)
qed

lemma regenerate_well_formed:
  assumes "well_formed acc" and "generateFingerprint k r \<notin> set (held acc)"
  shows "well_formed (regenerateFingerprint k r now acc)"
proof -
  let ?h = "fingerprintHistory acc"
  let ?pushed = "\<lparr>entry_fingerprint = fingerprint acc, reason = regenerated,
                   timestamp = now\<rparr> # ?h"
  have d: "distinct (map entry_fingerprint ?pushed)"
    using assms(1) by (simp add: well_formed_def held_def)
  have "distinct (take MAX_FINGERPRINT_HISTORY (map entry_fingerprint ?pushed))"
    using d by (rule distinct_take)
  then have d': "distinct (map entry_fingerprint (take MAX_FINGERPRINT_HISTORY ?pushed))"
    by (simp only: take_map)
  have "set (take MAX_FINGERPRINT_HISTORY ?pushed) \<subseteq> set ?pushed"
    by (rule set_take_subset)
  then have "entry_fingerprint ` set (take MAX_FINGERPRINT_HISTORY ?pushed) \<subseteq> set (held acc)"
    by (auto simp: held_def)
  with assms(2) have new: "generateFingerprint k r \<notin>
      entry_fingerprint ` set (take MAX_FINGERPRINT_HISTORY ?pushed)"
    by blast
  show ?thesis
    using d' new
    by (simp add: well_formed_def held_def regenerateFingerprint_def Let_def)
qed

lemma restore_well_formed:
  assumes "well_formed acc" and "restoreFingerprint i now acc = Inr acc'"
  shows "well_formed acc'"
proof -
  let ?h = "fingerprintHistory acc"
  from assms(2) have i: "0 \<le> i" "nat i < length ?h"
    by (auto simp: restoreFingerprint_def split: if_splits)
  with assms(2) have acc': "acc' = acc\<lparr>fingerprintHistory :=
        \<lparr>entry_fingerprint = fingerprint acc, reason = restored, timestamp = now\<rparr>
          # remove_at (nat i) ?h,
        fingerprint := entry_fingerprint (?h ! nat i)\<rparr>"
    by (auto simp: restoreFingerprint_def Let_def remove_at_Cons split: if_splits)
  from assms(1) have d: "distinct (map entry_fingerprint ?h)"
    and cur: "fingerprint acc \<notin> set (map entry_fingerprint ?h)"
    and len: "length ?h \<le> MAX_FINGERPRINT_HISTORY"
    by (simp_all add: well_formed_def held_def)
  from distinct_nth_remove_at [OF d i(2)]
  have r: "entry_fingerprint (?h ! nat i) \<notin> set (map entry_fingerprint (remove_at (nat i) ?h))"
    "distinct (map entry_fingerprint (remove_at (nat i) ?h))"
    "set (map entry_fingerprint (remove_at (nat i) ?h)) \<subseteq> set (map entry_fingerprint ?h)"
    by blast+
  have in_h: "entry_fingerprint (?h ! nat i) \<in> set (map entry_fingerprint ?h)"
    using i(2) by simp
  with cur have ne: "entry_fingerprint (?h ! nat i) \<noteq> fingerprint acc" by metis
  from cur r(3) have cur': "fingerprint acc \<notin> set (map entry_fingerprint (remove_at (nat i) ?h))"
    by blast
  have l: "length (remove_at (nat i) ?h) = length ?h - 1"
    using i(2) by (rule length_remove_at)
  from i(2) have pos: "0 < length ?h" by linarith
  show ?thesis
    unfolding acc' well_formed_def held_def
    using r(1,2) ne cur' l len pos by simp
qed

lemma apply_op_well_formed:
  assumes "well_formed acc" and "generated_fresh k acc [x]"
  shows "well_formed (apply_op k acc x)"
proof (cases x)
  case (Regenerate r now)
  with assms show ?thesis by (simp add: regenerate_well_formed)
next
  case (Restore i now)
  show ?thesis
  proof (cases "restoreFingerprint i now acc")
    case (Inl e)
    with Restore assms(1) show ?thesis by simp
  next
    case (Inr acc')
    with Restore restore_well_formed [OF assms(1) Inr] show ?thesis by simp
  qed
qed

lemma apply_ops_well_formed:
  "well_formed acc \<Longrightarrow> generated_fresh k acc ops \<Longrightarrow> well_formed (apply_ops k acc ops)"
proof (induction ops arbitrary: acc)
  case Nil
  then show ?case by simp
next
  case (Cons x xs)
  have one: "generated_fresh k acc [x]" and rest: "generated_fresh k (apply_op k acc x) xs"
    using Cons.prems(2) by (cases x; simp)+
  from apply_op_well_formed [OF Cons.prems(1) one] rest
  show ?case by (simp add: Cons.IH)
qed

text \<open>
  Claim C3. Take an account in the state the pool keeps it in (history within the cap, no
  fingerprint held twice; a new account is such) and any finite sequence of regenerate
  and restore operations in which every generated fingerprint is new to the account.
  Afterwards the history has at most \<open>MAX_FINGERPRINT_HISTORY = 5\<close> entries and the current
  fingerprint occurs nowhere in it.
\<close>

theorem fingerprint_history_invariant:
  assumes "well_formed acc" and "generated_fresh k acc ops"
  shows "length (fingerprintHistory (apply_ops k acc ops)) \<le> 5 \<and>
         fingerprint (apply_ops k acc ops)
           \<notin> set (map entry_fingerprint (fingerprintHistory (apply_ops k acc ops)))"
  using apply_ops_well_formed [OF assms]
  by (simp add: well_formed_def held_def MAX_FINGERPRINT_HISTORY_def)

lemma deviceId_generateFingerprint: "deviceId (generateFingerprint k r) = deviceUuid r"
  by (simp add: generateFingerprint_def Let_def)

theorem fingerprint_history_invariant_witness:
  "let k = \<lparr>IDE_TYPE_ANTIGRAVITY = 9, PLUGIN_TYPE_GEMINI = 2\<rparr>;
       r = (\<lambda>u. \<lparr>draw = (\<lambda>_. 0), deviceUuid = u, sessionHex = ''00'', sqmUuid = ''aa'',
                  quotaHex = ''11'', clock = 0\<rparr>);
       acc = new_account ''test@example.com'' (generateFingerprint k (r ''fp0''));
       ops = [Regenerate (r ''fp1'') 1, Regenerate (r ''fp2'') 2, Restore 1 3]
   in well_formed acc \<and> generated_fresh k acc ops \<and>
      length (fingerprintHistory (apply_ops k acc ops)) \<le> 5 \<and>
      fingerprint (apply_ops k acc ops)
        \<notin> set (map entry_fingerprint (fingerprintHistory (apply_ops k acc ops))) \<and>
      map deviceId (held (apply_ops k acc ops)) = [''fp0'', ''fp2'', ''fp1'']"
proof -
  let ?k = "\<lparr>IDE_TYPE_ANTIGRAVITY = 9, PLUGIN_TYPE_GEMINI = 2\<rparr>"
  let ?r = "\<lambda>u. \<lparr>draw = (\<lambda>_. 0), deviceUuid = u, sessionHex = ''00'', sqmUuid = ''aa'',
                  quotaHex = ''11'', clock = 0\<rparr>"
  let ?acc = "new_account ''test@example.com'' (generateFingerprint ?k (?r ''fp0''))"
  let ?ops = "[Regenerate (?r ''fp1'') 1, Regenerate (?r ''fp2'') 2, Restore 1 3]"
  have ne: "generateFingerprint ?k (?r u) \<noteq> generateFingerprint ?k (?r v)" if "u \<noteq> v" for u v
  proof
    assume "generateFingerprint ?k (?r u) = generateFingerprint ?k (?r v)"
    then have "deviceId (generateFingerprint ?k (?r u)) = deviceId (generateFingerprint ?k (?r v))"
      by simp
    with that show False by (simp add: deviceId_generateFingerprint)
  qed
  have wf: "well_formed ?acc" by (rule well_formed_new_account)
  have fresh: "generated_fresh ?k ?acc ?ops"
    by (simp add: new_account_def held_def regenerateFingerprint_def Let_def
        MAX_FINGERPRINT_HISTORY_def ne)
  have ids: "map deviceId (held (apply_ops ?k ?acc ?ops)) = [''fp0'', ''fp2'', ''fp1'']"
    by (simp add: new_account_def held_def regenerateFingerprint_def restoreFingerprint_def
        remove_at_def Let_def MAX_FINGERPRINT_HISTORY_def deviceId_generateFingerprint)
  from fingerprint_history_invariant [OF wf fresh] wf fresh ids
  show ?thesis by (simp only: Let_def) blast
qed




section \<open>The response converter\<close>

lemma parts_of_no_candidates:
  "candidates r = None \<or> candidates r = Some [] \<Longrightarrow> parts_of r = []"
  by (auto simp: parts_of_def first_candidate_def)

text \<open>
  Claim C6. For every input, raw or wrapped, with any \<open>candidates\<close> (missing, empty or
  not) and any model name, the converter returns an envelope with type \<open>message\<close>, role
  \<open>assistant\<close> and the given model name, whose content has at least one block; when
  \<open>candidates\<close> is empty or missing, the content is exactly one empty-text block.
\<close>

theorem convertGoogleToAnthropic_envelope:
  "message_type (convertGoogleToAnthropic hex g m) = ''message'' \<and>
   role (convertGoogleToAnthropic hex g m) = ''assistant'' \<and>
   model (convertGoogleToAnthropic hex g m) = m \<and>
   1 \<le> length (content (convertGoogleToAnthropic hex g m)) \<and>
   (candidates (unwrap g) = None \<or> candidates (unwrap g) = Some [] \<longrightarrow>
      content (convertGoogleToAnthropic hex g m) = [Text ''''])"
proof -
  have env: "message_type (convertGoogleToAnthropic hex g m) = ''message''"
    "role (convertGoogleToAnthropic hex g m) = ''assistant''"
    "model (convertGoogleToAnthropic hex g m) = m"
    by (simp_all add: convertGoogleToAnthropic_def Let_def)
  have len: "1 \<le> length (content (convertGoogleToAnthropic hex g m))"
    by (cases "convert_parts hex 0 (parts_of (unwrap g))")
       (simp_all add: convertGoogleToAnthropic_def Let_def)
  have none: "candidates (unwrap g) = None \<or> candidates (unwrap g) = Some [] \<longrightarrow>
      content (convertGoogleToAnthropic hex g m) = [Text '''']"
    by (auto simp: convertGoogleToAnthropic_def Let_def parts_of_no_candidates)
  from env len none show ?thesis by blast
qed

theorem convertGoogleToAnthropic_envelope_witness:
  "candidates (unwrap (Raw \<lparr>candidates = Some [], usageMetadata = None\<rparr>)) = Some [] \<and>
   content (convertGoogleToAnthropic (\<lambda>_. ''0123456789abcdef01234567'')
              (Raw \<lparr>candidates = Some [], usageMetadata = None\<rparr>) ''m'') = [Text ''''] \<and>
   candidates (unwrap (Wrapped \<lparr>candidates = None, usageMetadata = None\<rparr>)) = None \<and>
   content (convertGoogleToAnthropic (\<lambda>_. ''0123456789abcdef01234567'')
              (Wrapped \<lparr>candidates = None, usageMetadata = None\<rparr>) ''m'') = [Text '''']"
proof -
  have e: "candidates (unwrap (Raw \<lparr>candidates = Some [], usageMetadata = None\<rparr>)) = Some []"
    by (simp add: unwrap_def)
  have n: "candidates (unwrap (Wrapped \<lparr>candidates = None, usageMetadata = None\<rparr>)) = None"
    by (simp add: unwrap_def)
  from convertGoogleToAnthropic_envelope
    [of "\<lambda>_. ''0123456789abcdef01234567''" "Raw \<lparr>candidates = Some [], usageMetadata = None\<rparr>" "''m''"] e
  have c1: "content (convertGoogleToAnthropic (\<lambda>_. ''0123456789abcdef01234567'')
              (Raw \<lparr>candidates = Some [], usageMetadata = None\<rparr>) ''m'') = [Text '''']"
    by blast
  from convertGoogleToAnthropic_envelope
    [of "\<lambda>_. ''0123456789abcdef01234567''" "Wrapped \<lparr>candidates = None, usageMetadata = None\<rparr>" "''m''"] n
  have c2: "content (convertGoogleToAnthropic (\<lambda>_. ''0123456789abcdef01234567'')
              (Wrapped \<lparr>candidates = None, usageMetadata = None\<rparr>) ''m'') = [Text '''']"
    by blast
  from e n c1 c2 show ?thesis by blast
qed

section \<open>Interaction events\<close>

lemma length_typing_events: "length (typing_events rnd clk i n) = n"
  by (induction n arbitrary: i) (simp_all add: Let_def)

lemma nth_typing_events:
  "j < n \<Longrightarrow> typing_events rnd clk i n ! j =
     \<lparr>event_time = clk (1 + (i + j)) - \<lfloor>rnd (1 + (i + j)) * 5000\<rfloor>,
      interaction_type = TYPING, ui_element = EDITOR_PANE\<rparr>"
proof (induction n arbitrary: i j)
  case 0
  then show ?case by simp
next
  case (Suc n)
  then show ?case by (cases j) (simp_all add: Let_def)
qed

lemma length_idle_events: "length (idle_events rnd clk i n) = n"
  by (induction n arbitrary: i) (simp_all add: Let_def)

lemma nth_idle_events:
  "j < n \<Longrightarrow> idle_events rnd clk i n ! j =
     \<lparr>event_time = clk (1 + (i + j)) - \<lfloor>rnd (1 + 2 * (i + j)) * 10000\<rfloor>,
      interaction_type = idle_interaction (rnd (2 + 2 * (i + j))),
      ui_element = EDITOR_PANE\<rparr>"
proof (induction n arbitrary: i j)
  case 0
  then show ?case by simp
next
  case (Suc n)
  then show ?case by (cases j) (simp_all add: Let_def)
qed

lemma floor_scaled_draw:
  fixes u :: rat
  assumes "0 \<le> u" and "u < 1" and "0 < m"
  shows "0 \<le> \<lfloor>u * of_int m\<rfloor> \<and> \<lfloor>u * of_int m\<rfloor> < m"
proof -
  have "0 \<le> u * of_int m" using assms by simp
  then have lo: "0 \<le> \<lfloor>u * of_int m\<rfloor>" by simp
  have "u * of_int m < of_int m" using assms by simp
  then have "\<lfloor>u * of_int m\<rfloor> < m" by (simp add: floor_less_iff)
  with lo show ?thesis by simp
qed

lemma typing_count:
  fixes u :: rat
  assumes "0 \<le> u" and "u < 1"
  shows "3 \<le> nat (\<lfloor>u * 5\<rfloor> + 3) \<and> nat (\<lfloor>u * 5\<rfloor> + 3) \<le> 7"
proof -
  from floor_scaled_draw [OF assms, of 5]
  have "0 \<le> \<lfloor>u * 5\<rfloor> \<and> \<lfloor>u * 5\<rfloor> < 5" by simp
  then show ?thesis by linarith
qed

lemma idle_count:
  fixes u :: rat
  assumes "0 \<le> u" and "u < 1"
  shows "1 \<le> nat (\<lfloor>u * 3\<rfloor> + 1) \<and> nat (\<lfloor>u * 3\<rfloor> + 1) \<le> 3"
proof -
  from floor_scaled_draw [OF assms, of 3]
  have "0 \<le> \<lfloor>u * 3\<rfloor> \<and> \<lfloor>u * 3\<rfloor> < 3" by simp
  then show ?thesis by linarith
qed

lemma grid_threshold:
  assumes "0 < N" and "0 < b"
  shows "{k. k < N \<and> (of_nat k / of_nat N :: rat) > of_nat a / of_nat b}
           = {Suc (a * N div b) ..< N}"
proof -
  have iff: "(of_nat k / of_nat N :: rat) > of_nat a / of_nat b \<longleftrightarrow> a * N div b < k" for k
  proof -
    have "(of_nat a / of_nat b :: rat) < of_nat k / of_nat N
            \<longleftrightarrow> (of_nat a * of_nat N :: rat) < of_nat k * of_nat b"
      using assms by (simp add: divide_less_eq less_divide_eq mult.commute)
    also have "\<dots> \<longleftrightarrow> (of_nat (a * N) :: rat) < of_nat (k * b)"
      by (simp only: of_nat_mult)
    also have "\<dots> \<longleftrightarrow> a * N < k * b" by (simp only: of_nat_less_iff)
    also have "\<dots> \<longleftrightarrow> a * N div b < k"
      using assms(2) by (simp only: div_less_iff_less_mult)
    finally show ?thesis .
  qed
  show ?thesis
  proof (rule set_eqI)
    fix k
    show "k \<in> {k. k < N \<and> (of_nat k / of_nat N :: rat) > of_nat a / of_nat b}
            \<longleftrightarrow> k \<in> {Suc (a * N div b) ..< N}"
      unfolding mem_Collect_eq iff atLeastLessThan_iff Suc_le_eq by (rule conj_commute)
  qed
qed

lemma grid_count_threshold:
  assumes "0 < N" and "0 < b" and "t = of_nat a / of_nat b"
  shows "grid_count N (\<lambda>u. u > t) = N - Suc (a * N div b)"
proof -
  have "grid_count N (\<lambda>u. u > t)
          = card {k. k < N \<and> (of_nat k / of_nat N :: rat) > of_nat a / of_nat b}"
    by (simp only: grid_count_def assms(3))
  also have "\<dots> = card {Suc (a * N div b) ..< N}"
    by (simp only: grid_threshold [OF assms(1,2)])
  also have "\<dots> = N - Suc (a * N div b)" by (rule card_atLeastLessThan)
  finally show ?thesis .
qed

lemma grid_count_not:
  "grid_count N (\<lambda>u. \<not> P u) = N - grid_count N P"
proof -
  have fin: "finite {k. k < N \<and> P (of_nat k / of_nat N)}" by simp
  have "{k. k < N \<and> \<not> P (of_nat k / of_nat N)}
          = {..<N} - {k. k < N \<and> P (of_nat k / of_nat N)}"
    by auto
  then have "card {k. k < N \<and> \<not> P (of_nat k / of_nat N)}
          = card {..<N} - card {k. k < N \<and> P (of_nat k / of_nat N)}"
    by (simp add: card_Diff_subset subset_eq)
  then show ?thesis by (simp add: grid_count_def)
qed

lemma six_tenths: "(6 / 10 :: rat) = of_nat 6 / of_nat 10"
  by simp

lemma nine_tenths: "(9 / 10 :: rat) = of_nat 9 / of_nat 10"
  by simp

lemma scroll_share:
  assumes "0 < N"
  shows "grid_count N (\<lambda>u. idle_interaction u = SCROLL) = N - Suc (6 * N div 10)"
    and "grid_count N (\<lambda>u. idle_interaction u = MOUSE_OVER) = N - (N - Suc (6 * N div 10))"
proof -
  have s: "(\<lambda>u. idle_interaction u = SCROLL) = (\<lambda>u. u > 6 / 10)"
    by (rule ext) (simp only: idle_interaction_def split: if_split, simp)
  have m: "(\<lambda>u. idle_interaction u = MOUSE_OVER) = (\<lambda>u. \<not> u > 6 / 10)"
    by (rule ext) (simp only: idle_interaction_def split: if_split, simp)
  have c: "grid_count N (\<lambda>u. u > 6 / 10) = N - Suc (6 * N div 10)"
    using assms by (rule grid_count_threshold [OF _ _ six_tenths]) simp
  show "grid_count N (\<lambda>u. idle_interaction u = SCROLL) = N - Suc (6 * N div 10)"
    by (simp only: s c)
  show "grid_count N (\<lambda>u. idle_interaction u = MOUSE_OVER) = N - (N - Suc (6 * N div 10))"
    by (simp only: m grid_count_not c)
qed

lemma focus_share:
  assumes "0 < N"
  shows "grid_count N focus_changes = N - Suc (9 * N div 10)"
proof -
  have s: "focus_changes = (\<lambda>u. u > 9 / 10)"
    by (rule ext) (simp only: focus_changes_def)
  have c: "grid_count N (\<lambda>u. u > 9 / 10) = N - Suc (9 * N div 10)"
    using assms by (rule grid_count_threshold [OF _ _ nine_tenths]) simp
  show ?thesis by (simp only: s c)
qed

lemma share_bounds:
  fixes N :: nat
  assumes "0 < N"
  shows "10 * (N - Suc (6 * N div 10)) \<le> 4 * N \<and> 4 * N \<le> 10 * (N - Suc (6 * N div 10)) + 10 \<and>
         (N - Suc (6 * N div 10)) + (N - (N - Suc (6 * N div 10))) = N \<and>
         10 * (N - Suc (9 * N div 10)) \<le> N \<and> N \<le> 10 * (N - Suc (9 * N div 10)) + 10"
proof -
  define q where "q = 6 * N div 10"
  define p where "p = 9 * N div 10"
  have q1: "10 * q \<le> 6 * N" unfolding q_def by simp
  have q2: "6 * N < 10 * q + 10"
    unfolding q_def using dividend_less_div_times [of 10 "6 * N"] by simp
  have p1: "10 * p \<le> 9 * N" unfolding p_def by simp
  have p2: "9 * N < 10 * p + 10"
    unfolding p_def using dividend_less_div_times [of 10 "9 * N"] by simp
  have a: "10 * (N - Suc q) \<le> 4 * N" using q1 q2 assms by linarith
  have b: "4 * N \<le> 10 * (N - Suc q) + 10" using q1 q2 assms by linarith
  have c: "(N - Suc q) + (N - (N - Suc q)) = N" using q1 q2 assms by linarith
  have d: "10 * (N - Suc p) \<le> N" using p1 p2 assms by linarith
  have e: "N \<le> 10 * (N - Suc p) + 10" using p1 p2 assms by linarith
  from a b c d e show ?thesis unfolding q_def p_def by blast
qed

text \<open>
  Claim C8, as amended. Let every draw lie in \<open>[0, 1)\<close> and let \<open>E\<close> be the list of
  interaction events. If \<open>now - lastActivity < 15 s\<close>, \<open>E\<close> has 3 to 8 events, all \<open>TYPING\<close>
  on \<open>EDITOR_PANE\<close>, each back-dated by at most 5 s from the clock reading it was made
  from. Otherwise \<open>E\<close> starts with \<open>n\<close> events, \<open>1 \<le> n \<le> 3\<close>, on \<open>EDITOR_PANE\<close>, each
  back-dated by at most 10 s, the \<open>i\<close>-th being \<open>SCROLL\<close> when its draw is above 0.6 and
  \<open>MOUSE_OVER\<close> when it is not; and when the next draw is above 0.9, and only then, one
  more event follows, \<open>WINDOW_FOCUS\<close> or \<open>WINDOW_BLUR\<close> on \<open>IDE_WINDOW\<close>, not back-dated.
  For a uniform draw on a grid of \<open>N\<close> points, \<open>SCROLL\<close> has probability 40% (at most 40%
  and at least 40% less \<open>1/N\<close>) and \<open>MOUSE_OVER\<close> the remaining 60%; the window event has
  probability 10% (at most 10% and at least 10% less \<open>1/N\<close>).
\<close>

theorem interactionEvents_shape:
  assumes "\<forall>j. 0 \<le> rnd j \<and> rnd j < 1"
  shows
    "(clk 0 - lastActivity < 15000 \<longrightarrow>
        3 \<le> length (interactionEvents lastActivity rnd clk) \<and>
        length (interactionEvents lastActivity rnd clk) \<le> 8 \<and>
        (\<forall>i < length (interactionEvents lastActivity rnd clk).
           interaction_type (interactionEvents lastActivity rnd clk ! i) = TYPING \<and>
           ui_element (interactionEvents lastActivity rnd clk ! i) = EDITOR_PANE \<and>
           0 \<le> clk (1 + i) - event_time (interactionEvents lastActivity rnd clk ! i) \<and>
           clk (1 + i) - event_time (interactionEvents lastActivity rnd clk ! i) \<le> 5000)) \<and>
     (\<not> clk 0 - lastActivity < 15000 \<longrightarrow>
        (\<exists>n. 1 \<le> n \<and> n \<le> 3 \<and>
           (\<forall>i < n.
              (interaction_type (interactionEvents lastActivity rnd clk ! i) = SCROLL
                 \<longleftrightarrow> rnd (2 + 2 * i) > 6 / 10) \<and>
              (interaction_type (interactionEvents lastActivity rnd clk ! i) = MOUSE_OVER
                 \<longleftrightarrow> rnd (2 + 2 * i) \<le> 6 / 10) \<and>
              ui_element (interactionEvents lastActivity rnd clk ! i) = EDITOR_PANE \<and>
              0 \<le> clk (1 + i) - event_time (interactionEvents lastActivity rnd clk ! i) \<and>
              clk (1 + i) - event_time (interactionEvents lastActivity rnd clk ! i) \<le> 10000) \<and>
           (rnd (1 + 2 * n) > 9 / 10 \<longrightarrow>
              length (interactionEvents lastActivity rnd clk) = n + 1 \<and>
              (interaction_type (interactionEvents lastActivity rnd clk ! n) = WINDOW_FOCUS \<or>
               interaction_type (interactionEvents lastActivity rnd clk ! n) = WINDOW_BLUR) \<and>
              ui_element (interactionEvents lastActivity rnd clk ! n) = IDE_WINDOW \<and>
              event_time (interactionEvents lastActivity rnd clk ! n) = clk (1 + n)) \<and>
           (\<not> rnd (1 + 2 * n) > 9 / 10 \<longrightarrow>
              length (interactionEvents lastActivity rnd clk) = n))) \<and>
     (\<forall>N > 0.
        10 * grid_count N (\<lambda>u. idle_interaction u = SCROLL) \<le> 4 * N \<and>
        4 * N \<le> 10 * grid_count N (\<lambda>u. idle_interaction u = SCROLL) + 10 \<and>
        grid_count N (\<lambda>u. idle_interaction u = SCROLL)
          + grid_count N (\<lambda>u. idle_interaction u = MOUSE_OVER) = N \<and>
        10 * grid_count N focus_changes \<le> N \<and>
        N \<le> 10 * grid_count N focus_changes + 10)"
proof -
  let ?E = "interactionEvents lastActivity rnd clk"
  have draw: "0 \<le> rnd j" "rnd j < 1" for j using assms by simp_all
  have busy: "clk 0 - lastActivity < 15000 \<longrightarrow>
        3 \<le> length ?E \<and> length ?E \<le> 8 \<and>
        (\<forall>i < length ?E.
           interaction_type (?E ! i) = TYPING \<and> ui_element (?E ! i) = EDITOR_PANE \<and>
           0 \<le> clk (1 + i) - event_time (?E ! i) \<and>
           clk (1 + i) - event_time (?E ! i) \<le> 5000)"
  proof
    assume recent: "clk 0 - lastActivity < 15000"
    let ?n = "nat (\<lfloor>rnd 0 * 5\<rfloor> + 3)"
    have E: "?E = typing_events rnd clk 0 ?n"
      using recent by (simp add: interactionEvents_def Let_def)
    have n: "3 \<le> ?n \<and> ?n \<le> 7" using typing_count [OF draw] .
    have each: "interaction_type (?E ! i) = TYPING \<and> ui_element (?E ! i) = EDITOR_PANE \<and>
           0 \<le> clk (1 + i) - event_time (?E ! i) \<and>
           clk (1 + i) - event_time (?E ! i) \<le> 5000" if "i < length ?E" for i
    proof -
      from that have i: "i < ?n" by (simp add: E length_typing_events)
      from floor_scaled_draw [OF draw, of 5000 "1 + i"]
      have "0 \<le> \<lfloor>rnd (1 + i) * 5000\<rfloor> \<and> \<lfloor>rnd (1 + i) * 5000\<rfloor> < 5000" by simp
      then show ?thesis
        by (simp add: E nth_typing_events [OF i])
    qed
    from n each show "3 \<le> length ?E \<and> length ?E \<le> 8 \<and>
        (\<forall>i < length ?E.
           interaction_type (?E ! i) = TYPING \<and> ui_element (?E ! i) = EDITOR_PANE \<and>
           0 \<le> clk (1 + i) - event_time (?E ! i) \<and>
           clk (1 + i) - event_time (?E ! i) \<le> 5000)"
      by (simp add: E length_typing_events)
  qed
  have idle: "\<not> clk 0 - lastActivity < 15000 \<longrightarrow>
        (\<exists>n. 1 \<le> n \<and> n \<le> 3 \<and>
           (\<forall>i < n.
              (interaction_type (?E ! i) = SCROLL \<longleftrightarrow> rnd (2 + 2 * i) > 6 / 10) \<and>
              (interaction_type (?E ! i) = MOUSE_OVER \<longleftrightarrow> rnd (2 + 2 * i) \<le> 6 / 10) \<and>
              ui_element (?E ! i) = EDITOR_PANE \<and>
              0 \<le> clk (1 + i) - event_time (?E ! i) \<and>
              clk (1 + i) - event_time (?E ! i) \<le> 10000) \<and>
           (rnd (1 + 2 * n) > 9 / 10 \<longrightarrow>
              length ?E = n + 1 \<and>
              (interaction_type (?E ! n) = WINDOW_FOCUS \<or>
               interaction_type (?E ! n) = WINDOW_BLUR) \<and>
              ui_element (?E ! n) = IDE_WINDOW \<and>
              event_time (?E ! n) = clk (1 + n)) \<and>
           (\<not> rnd (1 + 2 * n) > 9 / 10 \<longrightarrow> length ?E = n))"
  proof
    assume away: "\<not> clk 0 - lastActivity < 15000"
    let ?n = "nat (\<lfloor>rnd 0 * 3\<rfloor> + 1)"
    let ?I = "idle_events rnd clk 0 ?n"
    let ?w = "\<lparr>event_time = clk (1 + ?n),
               interaction_type = focus_interaction (rnd (2 + 2 * ?n)),
               ui_element = IDE_WINDOW\<rparr>"
    have E: "?E = ?I @ (if focus_changes (rnd (1 + 2 * ?n)) then [?w] else [])"
      using away by (simp add: interactionEvents_def Let_def)
    have n: "1 \<le> ?n \<and> ?n \<le> 3" using idle_count [OF draw] .
    have first: "?E ! i = ?I ! i" if "i < ?n" for i
      using that by (simp add: E nth_append length_idle_events)
    have each: "(interaction_type (?E ! i) = SCROLL \<longleftrightarrow> rnd (2 + 2 * i) > 6 / 10) \<and>
              (interaction_type (?E ! i) = MOUSE_OVER \<longleftrightarrow> rnd (2 + 2 * i) \<le> 6 / 10) \<and>
              ui_element (?E ! i) = EDITOR_PANE \<and>
              0 \<le> clk (1 + i) - event_time (?E ! i) \<and>
              clk (1 + i) - event_time (?E ! i) \<le> 10000" if "i < ?n" for i
    proof -
      from floor_scaled_draw [OF draw, of 10000 "1 + 2 * i"]
      have "0 \<le> \<lfloor>rnd (1 + 2 * i) * 10000\<rfloor> \<and> \<lfloor>rnd (1 + 2 * i) * 10000\<rfloor> < 10000"
        by simp
      then show ?thesis
        by (simp add: first [OF that] nth_idle_events [OF that] idle_interaction_def)
    qed
    have more: "rnd (1 + 2 * ?n) > 9 / 10 \<longrightarrow>
              length ?E = ?n + 1 \<and>
              (interaction_type (?E ! ?n) = WINDOW_FOCUS \<or>
               interaction_type (?E ! ?n) = WINDOW_BLUR) \<and>
              ui_element (?E ! ?n) = IDE_WINDOW \<and>
              event_time (?E ! ?n) = clk (1 + ?n)"
    proof
      assume "rnd (1 + 2 * ?n) > 9 / 10"
      then have "?E = ?I @ [?w]" by (simp add: E focus_changes_def)
      then show "length ?E = ?n + 1 \<and>
              (interaction_type (?E ! ?n) = WINDOW_FOCUS \<or>
               interaction_type (?E ! ?n) = WINDOW_BLUR) \<and>
              ui_element (?E ! ?n) = IDE_WINDOW \<and>
              event_time (?E ! ?n) = clk (1 + ?n)"
        by (simp add: nth_append length_idle_events focus_interaction_def)
    qed
    have none: "\<not> rnd (1 + 2 * ?n) > 9 / 10 \<longrightarrow> length ?E = ?n"
      by (simp add: E focus_changes_def length_idle_events)
    from n each more none
    show "\<exists>n. 1 \<le> n \<and> n \<le> 3 \<and>
           (\<forall>i < n.
              (interaction_type (?E ! i) = SCROLL \<longleftrightarrow> rnd (2 + 2 * i) > 6 / 10) \<and>
              (interaction_type (?E ! i) = MOUSE_OVER \<longleftrightarrow> rnd (2 + 2 * i) \<le> 6 / 10) \<and>
              ui_element (?E ! i) = EDITOR_PANE \<and>
              0 \<le> clk (1 + i) - event_time (?E ! i) \<and>
              clk (1 + i) - event_time (?E ! i) \<le> 10000) \<and>
           (rnd (1 + 2 * n) > 9 / 10 \<longrightarrow>
              length ?E = n + 1 \<and>
              (interaction_type (?E ! n) = WINDOW_FOCUS \<or>
               interaction_type (?E ! n) = WINDOW_BLUR) \<and>
              ui_element (?E ! n) = IDE_WINDOW \<and>
              event_time (?E ! n) = clk (1 + n)) \<and>
           (\<not> rnd (1 + 2 * n) > 9 / 10 \<longrightarrow> length ?E = n)"
      by (intro exI [of _ ?n]) blast
  qed
  have shares: "\<forall>N > 0.
        10 * grid_count N (\<lambda>u. idle_interaction u = SCROLL) \<le> 4 * N \<and>
        4 * N \<le> 10 * grid_count N (\<lambda>u. idle_interaction u = SCROLL) + 10 \<and>
        grid_count N (\<lambda>u. idle_interaction u = SCROLL)
          + grid_count N (\<lambda>u. idle_interaction u = MOUSE_OVER) = N \<and>
        10 * grid_count N focus_changes \<le> N \<and>
        N \<le> 10 * grid_count N focus_changes + 10"
  proof (intro allI impI)
    fix N :: nat assume N: "0 < N"
    show "10 * grid_count N (\<lambda>u. idle_interaction u = SCROLL) \<le> 4 * N \<and>
        4 * N \<le> 10 * grid_count N (\<lambda>u. idle_interaction u = SCROLL) + 10 \<and>
        grid_count N (\<lambda>u. idle_interaction u = SCROLL)
          + grid_count N (\<lambda>u. idle_interaction u = MOUSE_OVER) = N \<and>
        10 * grid_count N focus_changes \<le> N \<and>
        N \<le> 10 * grid_count N focus_changes + 10"
      unfolding scroll_share [OF N] focus_share [OF N] using share_bounds [OF N] .
  qed
  from busy idle shares show ?thesis by blast
qed

theorem interactionEvents_shape_witness:
  "interactionEvents 99000 (\<lambda>_. 1 / 2) (\<lambda>_. 100000) =
     replicate 5 \<lparr>event_time = 97500, interaction_type = TYPING, ui_element = EDITOR_PANE\<rparr> \<and>
   3 \<le> length (interactionEvents 99000 (\<lambda>_. 1 / 2) (\<lambda>_. 100000)) \<and>
   length (interactionEvents 99000 (\<lambda>_. 1 / 2) (\<lambda>_. 100000)) \<le> 8 \<and>
   interactionEvents 0 (\<lambda>j. if j = 5 then 19 / 20 else 1 / 2) (\<lambda>_. 100000) =
     [\<lparr>event_time = 95000, interaction_type = MOUSE_OVER, ui_element = EDITOR_PANE\<rparr>,
      \<lparr>event_time = 95000, interaction_type = MOUSE_OVER, ui_element = EDITOR_PANE\<rparr>,
      \<lparr>event_time = 100000, interaction_type = WINDOW_BLUR, ui_element = IDE_WINDOW\<rparr>] \<and>
   10 * grid_count 1000 (\<lambda>u. idle_interaction u = SCROLL) \<le> 4 * 1000 \<and>
   10 * grid_count 1000 focus_changes \<le> 1000"
proof -
  have draws: "\<forall>j::nat. (0::rat) \<le> 1 / 2 \<and> (1 / 2 :: rat) < 1" by simp
  have recent: "(100000::int) - 99000 < 15000" by simp
  have N: "(0::nat) < 1000" by simp
  have busy: "interactionEvents 99000 (\<lambda>_. 1 / 2) (\<lambda>_. 100000) =
     replicate 5 \<lparr>event_time = 97500, interaction_type = TYPING, ui_element = EDITOR_PANE\<rparr>"
    by code_simp
  have idle: "interactionEvents 0 (\<lambda>j. if j = 5 then 19 / 20 else 1 / 2) (\<lambda>_. 100000) =
     [\<lparr>event_time = 95000, interaction_type = MOUSE_OVER, ui_element = EDITOR_PANE\<rparr>,
      \<lparr>event_time = 95000, interaction_type = MOUSE_OVER, ui_element = EDITOR_PANE\<rparr>,
      \<lparr>event_time = 100000, interaction_type = WINDOW_BLUR, ui_element = IDE_WINDOW\<rparr>]"
    by code_simp
  note shape = interactionEvents_shape [OF draws, of "\<lambda>_. 100000" 99000]
  from shape recent
  have len: "3 \<le> length (interactionEvents 99000 (\<lambda>_. 1 / 2) (\<lambda>_. 100000))"
    "length (interactionEvents 99000 (\<lambda>_. 1 / 2) (\<lambda>_. 100000)) \<le> 8"
    by blast+
  from shape N
  have share: "10 * grid_count 1000 (\<lambda>u. idle_interaction u = SCROLL) \<le> 4 * 1000"
    "10 * grid_count 1000 focus_changes \<le> 1000"
    by blast+
  from busy idle len share show ?thesis by blast
qed

text \<open>
  The claim as it was stated gives \<open>SCROLL\<close> 60% and \<open>MOUSE_OVER\<close> 40%. The code has it the
  other way round: a draw of 0.5 gives \<open>MOUSE_OVER\<close>, and of the thousand draws \<open>0/1000\<close> to
  \<open>999/1000\<close> 399 give \<open>SCROLL\<close> and 601 \<open>MOUSE_OVER\<close>.
\<close>

theorem interactionEvents_scroll_share_counterexample:
  "idle_interaction (1 / 2) = MOUSE_OVER \<and>
   grid_count 1000 (\<lambda>u. idle_interaction u = SCROLL) = 399 \<and>
   grid_count 1000 (\<lambda>u. idle_interaction u = MOUSE_OVER) = 601"
proof -
  have N: "(0::nat) < 1000" by simp
  have a: "idle_interaction (1 / 2) = MOUSE_OVER" by (simp add: idle_interaction_def)
  from scroll_share [OF N] a show ?thesis by simp
qed

section \<open>The traffic shaper\<close>



























section \<open>The token manager\<close>






















end
